theory Spec2Isabelle
  imports Main "HOL-Library.Word" "HOL-Library.Monad_Syntax"
begin

unbundle bit_operations_syntax

chapter \<open>DesktopFix: the pattern repaint behind FillCRgn and EraseRect\<close>

text \<open>
  A shallow embedding of \<^verbatim>\<open>src/desktopfix.c\<close>, an INIT for 68k Macs built with a
  compiler whose \<^verbatim>\<open>short\<close> has 16 bits and whose \<^verbatim>\<open>int\<close> and \<^verbatim>\<open>long\<close> have 32.
  A \<^verbatim>\<open>short\<close> is a \<open>16 word\<close> read with \<open>sint\<close>; arithmetic on shorts is done on
  \<open>int\<close> (the integer promotion) and brought back with \<open>word_of_int\<close> where the
  source stores the result in a short.
\<close>

section \<open>QuickDraw data\<close>

type_synonym short = "16 word"
type_synonym addr = "32 word"

text \<open>A \<^verbatim>\<open>Point\<close> is the pair \<open>(v, h)\<close>, vertical coordinate first as in the struct.\<close>

type_synonym Point = "short \<times> short"

record Rect =
  top' :: short
  left :: short
  bottom :: short
  right :: short

record RGBColor =
  red :: "16 word"
  green :: "16 word"
  blue :: "16 word"

record ColorSpec =
  cvalue :: short
  rgb :: RGBColor

record PixMap =
  baseAddr :: addr
  rowBytes :: short
  bounds :: Rect
  pixelSize :: short
  pmTable :: addr

record PixPat =
  patType :: short
  patMap :: addr
  patData :: addr

record Region =
  rgnBBox :: Rect

record GDevice =
  gdPMap :: addr

record CGrafPort =
  bkPixPat :: addr

text \<open>
  A window record; \<^verbatim>\<open>nextWindow\<close> is the order of the list the records are kept in.
\<close>

record WindowRecord =
  strucRgn :: addr

section \<open>The host\<close>

text \<open>
  The memory of the host is split by the type of what a handle leads to. A handle is an
  address; \<open>0\<close> is \<^verbatim>\<open>NULL\<close>, and a heap that answers \<open>None\<close> at a handle says that its
  master pointer is \<^verbatim>\<open>NULL\<close> (\<^verbatim>\<open>!*h\<close>). The pixel data of a pattern is the memory
  behind its handle, read at any byte offset; a colour table is read at any index an
  \<^verbatim>\<open>unsigned char\<close> can hold. \<open>hstate\<close> is the Memory Manager's flag byte of each
  handle, \<open>mem\<close> the bytes the frame buffer lives in. The window list is the chain
  from \<^verbatim>\<open>LM_WindowList\<close>, taken to be finite. \<open>PtInRgn\<close> and \<open>RectInRgn\<close> are the
  host's own traps, taken as they are.
\<close>

record toolbox =
  hstate :: "addr \<Rightarrow> 8 word"
  pixpats :: "addr \<Rightarrow> PixPat option"
  pixmaps :: "addr \<Rightarrow> PixMap option"
  datas :: "addr \<Rightarrow> (int \<Rightarrow> 8 word) option"
  ctabs :: "addr \<Rightarrow> (8 word \<Rightarrow> ColorSpec) option"
  rgns :: "addr \<Rightarrow> Region option"
  gdevices :: "addr \<Rightarrow> GDevice option"
  GetMainDevice :: addr
  thePort :: addr
  WMgrCPort :: addr
  cports :: "addr \<Rightarrow> CGrafPort"
  MBarHeight :: short
  WindowList :: "WindowRecord list"
  PtInRgn :: "Point \<Rightarrow> addr \<Rightarrow> bool"
  RectInRgn :: "Rect \<Rightarrow> addr \<Rightarrow> bool"
  mem :: "addr \<Rightarrow> 8 word"

text \<open>\<^verbatim>\<open>h && *h\<close>: what a handle leads to, when neither it nor its master pointer is nil.\<close>

definition deref :: "(addr \<Rightarrow> 'a option) \<Rightarrow> addr \<Rightarrow> 'a option" where
  "deref heap h = (if h = 0 then None else heap h)"

text \<open>
  Modelled from the spec: the query of the host's resource lock protocol (section 6,
  "acquire, query, restore a relocatable block's lock and purgeable state"), a trap
  that is not part of the source. \<open>HGetState\<close> reads the flag byte of a handle, which
  holds its lock bit and its purgeable bit.
\<close>

definition HGetState :: "toolbox \<Rightarrow> addr \<Rightarrow> 8 word" where
  "HGetState tb h = hstate tb h"

text \<open>
  Modelled from the spec: the acquisition of the same protocol, a trap that is not part
  of the source. \<open>HLock\<close> sets the lock bit (bit 7) of the handle's flag byte.
\<close>

definition HLock :: "addr \<Rightarrow> toolbox \<Rightarrow> toolbox" where
  "HLock h tb = tb\<lparr>hstate := (hstate tb)(h := hstate tb h OR 0x80)\<rparr>"

text \<open>
  Modelled from the spec: the restoration of the same protocol, a trap that is not part
  of the source. \<open>HSetState\<close> writes a flag byte back.
\<close>

definition HSetState :: "addr \<Rightarrow> 8 word \<Rightarrow> toolbox \<Rightarrow> toolbox" where
  "HSetState h s tb = tb\<lparr>hstate := (hstate tb)(h := s)\<rparr>"

section \<open>The globals of the patch\<close>

text \<open>
  What an observer of a run sees, in order: the saved original of a primitive being
  invoked, the guard being evaluated, a renderer being entered, a pixel being stored
  at row \<open>y\<close>, column \<open>x\<close>. The trace is an observation, not a variable of the program.
\<close>

datatype event =
  OrigFillCRgn addr addr
  | OrigEraseRect "Rect option"
  | GuardEval
  | RenderRgn addr addr
  | RenderRect Rect addr
  | Plot short short "32 word"

record machine =
  gInPatch :: short
  gScreenBase :: addr
  gScreenRowBytes :: "32 word"
  gScreenWidth :: short
  gScreenHeight :: short
  gScreenReady :: short
  host :: toolbox
  trace :: "event list"

definition observe :: "event \<Rightarrow> machine \<Rightarrow> machine" where
  "observe e st = st\<lparr>trace := trace st @ [e]\<rparr>"

section \<open>EnsureScreenInfo\<close>

definition EnsureScreenInfo :: "machine \<Rightarrow> bool \<times> machine" where
  "EnsureScreenInfo st =
     (if gScreenReady st \<noteq> 0 then (True, st)
      else
        (case deref (gdevices (host st)) (GetMainDevice (host st)) of
           None \<Rightarrow> (False, st)
         | Some mainDev \<Rightarrow>
             (case deref (pixmaps (host st)) (gdPMap mainDev) of
                None \<Rightarrow> (False, st)
              | Some pm \<Rightarrow>
                  if pixelSize pm \<noteq> 32 then (False, st)
                  else
                    (True,
                     st\<lparr>gScreenBase := baseAddr pm,
                        gScreenRowBytes := scast (rowBytes pm) AND 0x3FFF,
                        gScreenWidth :=
                          word_of_int (sint (right (bounds pm)) - sint (left (bounds pm))),
                        gScreenHeight :=
                          word_of_int (sint (bottom (bounds pm)) - sint (top' (bounds pm))),
                        gScreenReady := 1\<rparr>))))"

section \<open>The pixel computation\<close>

text \<open>
  \<^verbatim>\<open>a % b\<close> on \<^verbatim>\<open>int\<close>: the remainder has the sign of the dividend; a zero divisor
  raises the processor's divide exception, which is \<open>None\<close>.
\<close>

definition c_rem :: "int \<Rightarrow> int \<Rightarrow> int option" where
  "c_rem a b = (if b = 0 then None else Some (sgn a * (\<bar>a\<bar> mod \<bar>b\<bar>)))"

text \<open>\<^verbatim>\<open>tx = x % tileW; if (tx < 0) tx += tileW;\<close>\<close>

definition tile_coord :: "short \<Rightarrow> short \<Rightarrow> short option" where
  "tile_coord x tileW =
     (case c_rem (sint x) (sint tileW) of
        None \<Rightarrow> None
      | Some r \<Rightarrow>
          (let tx = (word_of_int r :: short)
           in Some (if sint tx < 0 then word_of_int (sint tx + sint tileW) else tx)))"

text \<open>The pattern as the loops see it, once its handles are locked and dereferenced.\<close>

record tile =
  tileW :: short
  tileH :: short
  tileRowBytes :: short
  tileData :: "int \<Rightarrow> 8 word"
  ctTable :: "8 word \<Rightarrow> ColorSpec"

text \<open>\<^verbatim>\<open>*((unsigned char *)patData + ty * tileRowBytes + tx)\<close>\<close>

definition pixVal :: "tile \<Rightarrow> short \<Rightarrow> short \<Rightarrow> 8 word" where
  "pixVal T ty tx = tileData T (sint ty * sint (tileRowBytes T) + sint tx)"

definition pixel32_of :: "ColorSpec \<Rightarrow> 32 word" where
  "pixel32_of cs =
     push_bit 16 (ucast (drop_bit 8 (red (rgb cs))) :: 32 word) OR
     push_bit 8 (ucast (drop_bit 8 (green (rgb cs))) :: 32 word) OR
     (ucast (drop_bit 8 (blue (rgb cs))) :: 32 word)"

type_synonym pixel_write = "short \<times> short \<times> 32 word"

text \<open>
  The loops. Each returns the stores it makes, as \<open>(y, x, pixel32)\<close> in the order they
  are made; nothing a loop reads is changed by a store, so the stores are applied to
  the frame buffer afterwards (\<open>store_pixels\<close>). \<open>None\<close> is a divide exception.
\<close>

function RgnRow :: "(Point \<Rightarrow> addr \<Rightarrow> bool) \<Rightarrow> addr \<Rightarrow> tile \<Rightarrow> short \<Rightarrow> short \<Rightarrow> short \<Rightarrow> short
    \<Rightarrow> pixel_write list option" where
  "RgnRow inRgn rgn T y ty x r =
     (if sint x < sint r then
        (if inRgn (y, x) rgn then
           do {
             tx \<leftarrow> tile_coord x (tileW T);
             ws \<leftarrow> RgnRow inRgn rgn T y ty (x + 1) r;
             Some ((y, x, pixel32_of (ctTable T (pixVal T ty tx))) # ws)
           }
         else RgnRow inRgn rgn T y ty (x + 1) r)
      else Some [])"
  by pat_completeness auto
termination
proof (relation "measure (\<lambda>(inRgn, rgn, T, y, ty, x, r). nat (sint r - sint x))")
  show "wf (measure (\<lambda>(inRgn, rgn, T, y, ty, x, r). nat (sint r - sint x)))"
    by simp
next
  fix inRgn :: "Point \<Rightarrow> addr \<Rightarrow> bool" and rgn :: addr and T :: tile
    and y ty x r tx :: short
  assume a: "sint x < sint r"
  have "sint r < 2 ^ 15" using sint_lt [of r] by simp
  moreover have "- (2 ^ 15) \<le> sint x" using sint_ge [of x] by simp
  ultimately have "signed_take_bit 15 (sint x + 1) = sint x + 1"
    using a by (intro signed_take_bit_int_eq_self) auto
  then have s: "sint (x + 1) = sint x + 1" by (simp add: sint_word_ariths)
  show "((inRgn, rgn, T, y, ty, x + 1, r), (inRgn, rgn, T, y, ty, x, r))
          \<in> measure (\<lambda>(inRgn, rgn, T, y, ty, x, r). nat (sint r - sint x))"
    using a s by simp
  show "((inRgn, rgn, T, y, ty, x + 1, r), (inRgn, rgn, T, y, ty, x, r))
          \<in> measure (\<lambda>(inRgn, rgn, T, y, ty, x, r). nat (sint r - sint x))"
    using a s by simp
qed

declare RgnRow.simps [simp del]

function RectRow :: "tile \<Rightarrow> short \<Rightarrow> short \<Rightarrow> short \<Rightarrow> short \<Rightarrow> pixel_write list option" where
  "RectRow T y ty x r =
     (if sint x < sint r then
        do {
          tx \<leftarrow> tile_coord x (tileW T);
          ws \<leftarrow> RectRow T y ty (x + 1) r;
          Some ((y, x, pixel32_of (ctTable T (pixVal T ty tx))) # ws)
        }
      else Some [])"
  by pat_completeness auto
termination
proof (relation "measure (\<lambda>(T, y, ty, x, r). nat (sint r - sint x))")
  show "wf (measure (\<lambda>(T, y, ty, x, r). nat (sint r - sint x)))"
    by simp
next
  fix T :: tile and y ty x r tx :: short
  assume a: "sint x < sint r"
  have "sint r < 2 ^ 15" using sint_lt [of r] by simp
  moreover have "- (2 ^ 15) \<le> sint x" using sint_ge [of x] by simp
  ultimately have "signed_take_bit 15 (sint x + 1) = sint x + 1"
    using a by (intro signed_take_bit_int_eq_self) auto
  then have s: "sint (x + 1) = sint x + 1" by (simp add: sint_word_ariths)
  show "((T, y, ty, x + 1, r), (T, y, ty, x, r))
          \<in> measure (\<lambda>(T, y, ty, x, r). nat (sint r - sint x))"
    using a s by simp
qed

declare RectRow.simps [simp del]

function RgnRows :: "(Point \<Rightarrow> addr \<Rightarrow> bool) \<Rightarrow> addr \<Rightarrow> tile \<Rightarrow> short \<Rightarrow> short \<Rightarrow> short \<Rightarrow> short
    \<Rightarrow> pixel_write list option" where
  "RgnRows inRgn rgn T y b l r =
     (if sint y < sint b then
        do {
          ty \<leftarrow> tile_coord y (tileH T);
          ws \<leftarrow> RgnRow inRgn rgn T y ty l r;
          rest \<leftarrow> RgnRows inRgn rgn T (y + 1) b l r;
          Some (ws @ rest)
        }
      else Some [])"
  by pat_completeness auto
termination
proof (relation "measure (\<lambda>(inRgn, rgn, T, y, b, l, r). nat (sint b - sint y))")
  show "wf (measure (\<lambda>(inRgn, rgn, T, y, b, l, r). nat (sint b - sint y)))"
    by simp
next
  fix inRgn :: "Point \<Rightarrow> addr \<Rightarrow> bool" and rgn :: addr and T :: tile
    and y b l r :: short
  assume a: "sint y < sint b"
  have "sint b < 2 ^ 15" using sint_lt [of b] by simp
  moreover have "- (2 ^ 15) \<le> sint y" using sint_ge [of y] by simp
  ultimately have "signed_take_bit 15 (sint y + 1) = sint y + 1"
    using a by (intro signed_take_bit_int_eq_self) auto
  then have s: "sint (y + 1) = sint y + 1" by (simp add: sint_word_ariths)
  show "((inRgn, rgn, T, y + 1, b, l, r), (inRgn, rgn, T, y, b, l, r))
          \<in> measure (\<lambda>(inRgn, rgn, T, y, b, l, r). nat (sint b - sint y))"
    using a s by simp
qed

declare RgnRows.simps [simp del]

function RectRows :: "tile \<Rightarrow> short \<Rightarrow> short \<Rightarrow> short \<Rightarrow> short \<Rightarrow> pixel_write list option" where
  "RectRows T y b l r =
     (if sint y < sint b then
        do {
          ty \<leftarrow> tile_coord y (tileH T);
          ws \<leftarrow> RectRow T y ty l r;
          rest \<leftarrow> RectRows T (y + 1) b l r;
          Some (ws @ rest)
        }
      else Some [])"
  by pat_completeness auto
termination
proof (relation "measure (\<lambda>(T, y, b, l, r). nat (sint b - sint y))")
  show "wf (measure (\<lambda>(T, y, b, l, r). nat (sint b - sint y)))"
    by simp
next
  fix T :: tile and y b l r :: short
  assume a: "sint y < sint b"
  have "sint b < 2 ^ 15" using sint_lt [of b] by simp
  moreover have "- (2 ^ 15) \<le> sint y" using sint_ge [of y] by simp
  ultimately have "signed_take_bit 15 (sint y + 1) = sint y + 1"
    using a by (intro signed_take_bit_int_eq_self) auto
  then have s: "sint (y + 1) = sint y + 1" by (simp add: sint_word_ariths)
  show "((T, y + 1, b, l, r), (T, y, b, l, r))
          \<in> measure (\<lambda>(T, y, b, l, r). nat (sint b - sint y))"
    using a s by simp
qed

declare RectRows.simps [simp del]

text \<open>
  The four clamps on the edges of the target area:
  \<^verbatim>\<open>if (left < 0) left = 0; if (top < 0) top = 0;\<close>
  \<^verbatim>\<open>if (right > gScreenWidth) right = gScreenWidth;\<close>
  \<^verbatim>\<open>if (bottom > gScreenHeight) bottom = gScreenHeight;\<close>
\<close>

definition ClipToScreen :: "machine \<Rightarrow> Rect \<Rightarrow> Rect" where
  "ClipToScreen st bbox =
     \<lparr>top' = (if sint (top' bbox) < 0 then 0 else top' bbox),
      left = (if sint (left bbox) < 0 then 0 else left bbox),
      bottom = (if sint (bottom bbox) > sint (gScreenHeight st) then gScreenHeight st
                else bottom bbox),
      right = (if sint (right bbox) > sint (gScreenWidth st) then gScreenWidth st
               else right bbox)\<rparr>"

text \<open>The body under \<^verbatim>\<open>if (left < right && top < bottom)\<close>, for the clamped area.\<close>

definition RgnPixels :: "machine \<Rightarrow> addr \<Rightarrow> tile \<Rightarrow> Rect \<Rightarrow> pixel_write list option" where
  "RgnPixels st rgn T bbox =
     (let c = ClipToScreen st bbox
      in if sint (left c) < sint (right c) \<and> sint (top' c) < sint (bottom c)
         then RgnRows (PtInRgn (host st)) rgn T (top' c) (bottom c) (left c) (right c)
         else Some [])"

definition RectPixels :: "machine \<Rightarrow> tile \<Rightarrow> Rect \<Rightarrow> pixel_write list option" where
  "RectPixels st T r =
     (let c = ClipToScreen st r
      in if sint (left c) < sint (right c) \<and> sint (top' c) < sint (bottom c)
         then RectRows T (top' c) (bottom c) (left c) (right c)
         else Some [])"

subsection \<open>Stores into the frame buffer\<close>

text \<open>
  \<^verbatim>\<open>rowPtr = (unsigned long *)(gScreenBase + (long)y * gScreenRowBytes)\<close> and
  \<^verbatim>\<open>rowPtr[x]\<close>: the address of the long that is stored, and the four bytes of a
  big-endian store.
\<close>

definition pixel_addr :: "machine \<Rightarrow> short \<Rightarrow> short \<Rightarrow> addr" where
  "pixel_addr st y x = gScreenBase st + scast y * gScreenRowBytes st + 4 * scast x"

definition poke32 :: "(addr \<Rightarrow> 8 word) \<Rightarrow> addr \<Rightarrow> 32 word \<Rightarrow> (addr \<Rightarrow> 8 word)" where
  "poke32 m a v =
     m(a := ucast (drop_bit 24 v), a + 1 := ucast (drop_bit 16 v),
       a + 2 := ucast (drop_bit 8 v), a + 3 := ucast v)"

definition store_pixels :: "pixel_write list \<Rightarrow> machine \<Rightarrow> machine" where
  "store_pixels ws st =
     st\<lparr>host := (host st)\<lparr>mem :=
            foldl (\<lambda>m (y, x, v). poke32 m (pixel_addr st y x) v) (mem (host st)) ws\<rparr>,
        trace := trace st @ map (\<lambda>(y, x, v). Plot y x v) ws\<rparr>"

section \<open>The two renderers\<close>

text \<open>
  \<open>None\<close> is a run that does not return, ended by a divide exception, or (region form)
  a run that reads the bounding box through a region handle that is nil or whose master
  pointer is, which the one caller rules out and to which no result is given here.
\<close>

definition RenderPatternInRgn :: "addr \<Rightarrow> addr \<Rightarrow> machine \<Rightarrow> machine option" where
  "RenderPatternInRgn rgn pp st =
     (case deref (pixpats (host st)) pp of
        None \<Rightarrow> Some st
      | Some pat \<Rightarrow>
          if patType pat \<noteq> 1 then Some st
          else
            (case deref (pixmaps (host st)) (patMap pat) of
               None \<Rightarrow> Some st
             | Some pm \<Rightarrow>
                 (case deref (datas (host st)) (patData pat) of
                    None \<Rightarrow> Some st
                  | Some pd \<Rightarrow>
                      (let patMapH = patMap pat;
                           patDataH = patData pat;
                           patMapState = HGetState (host st) patMapH;
                           h1 = HLock patMapH (host st);
                           patDataState = HGetState h1 patDataH;
                           h2 = HLock patDataH h1;
                           tw = (word_of_int (sint (right (bounds pm)) - sint (left (bounds pm))) :: short);
                           th = (word_of_int (sint (bottom (bounds pm)) - sint (top' (bounds pm))) :: short);
                           trb = rowBytes pm AND 0x3FFF;
                           tileDepth = pixelSize pm
                       in if sint tw \<le> 0 \<or> sint th \<le> 0 \<or> tileDepth \<noteq> 8
                          then Some (st\<lparr>host :=
                                 HSetState patDataH patDataState (HSetState patMapH patMapState h2)\<rparr>)
                          else
                            (case deref (ctabs h2) (pmTable pm) of
                               None \<Rightarrow>
                                 Some (st\<lparr>host :=
                                   HSetState patDataH patDataState
                                     (HSetState patMapH patMapState h2)\<rparr>)
                             | Some ct \<Rightarrow>
                                 (let ctab = pmTable pm;
                                      ctabState = HGetState h2 ctab;
                                      h3 = HLock ctab h2;
                                      T = \<lparr>tileW = tw, tileH = th, tileRowBytes = trb,
                                           tileData = pd, ctTable = ct\<rparr>
                                  in case deref (rgns h3) rgn of
                                       None \<Rightarrow> None
                                     | Some R \<Rightarrow>
                                         (case RgnPixels (st\<lparr>host := h3\<rparr>) rgn T (rgnBBox R) of
                                            None \<Rightarrow> None
                                          | Some ws \<Rightarrow>
                                              (let st4 = store_pixels ws (st\<lparr>host := h3\<rparr>)
                                               in Some (st4\<lparr>host :=
                                                    HSetState patDataH patDataState
                                                      (HSetState patMapH patMapState
                                                        (HSetState ctab ctabState (host st4)))\<rparr>)))))))))"

definition RenderPatternInRect :: "Rect \<Rightarrow> addr \<Rightarrow> machine \<Rightarrow> machine option" where
  "RenderPatternInRect r pp st =
     (case deref (pixpats (host st)) pp of
        None \<Rightarrow> Some st
      | Some pat \<Rightarrow>
          if patType pat \<noteq> 1 then Some st
          else
            (case deref (pixmaps (host st)) (patMap pat) of
               None \<Rightarrow> Some st
             | Some pm \<Rightarrow>
                 (case deref (datas (host st)) (patData pat) of
                    None \<Rightarrow> Some st
                  | Some pd \<Rightarrow>
                      (let patMapH = patMap pat;
                           patDataH = patData pat;
                           patMapState = HGetState (host st) patMapH;
                           h1 = HLock patMapH (host st);
                           patDataState = HGetState h1 patDataH;
                           h2 = HLock patDataH h1;
                           tw = (word_of_int (sint (right (bounds pm)) - sint (left (bounds pm))) :: short);
                           th = (word_of_int (sint (bottom (bounds pm)) - sint (top' (bounds pm))) :: short);
                           trb = rowBytes pm AND 0x3FFF;
                           tileDepth = pixelSize pm
                       in if sint tw \<le> 0 \<or> sint th \<le> 0 \<or> tileDepth \<noteq> 8
                          then Some (st\<lparr>host :=
                                 HSetState patDataH patDataState (HSetState patMapH patMapState h2)\<rparr>)
                          else
                            (case deref (ctabs h2) (pmTable pm) of
                               None \<Rightarrow>
                                 Some (st\<lparr>host :=
                                   HSetState patDataH patDataState
                                     (HSetState patMapH patMapState h2)\<rparr>)
                             | Some ct \<Rightarrow>
                                 (let ctab = pmTable pm;
                                      ctabState = HGetState h2 ctab;
                                      h3 = HLock ctab h2;
                                      T = \<lparr>tileW = tw, tileH = th, tileRowBytes = trb,
                                           tileData = pd, ctTable = ct\<rparr>
                                  in case RectPixels (st\<lparr>host := h3\<rparr>) T r of
                                       None \<Rightarrow> None
                                     | Some ws \<Rightarrow>
                                         (let st4 = store_pixels ws (st\<lparr>host := h3\<rparr>)
                                          in Some (st4\<lparr>host :=
                                               HSetState patDataH patDataState
                                                 (HSetState patMapH patMapState
                                                   (HSetState ctab ctabState (host st4)))\<rparr>))))))))"

section \<open>The guard\<close>

definition IsWMgrDraw :: "toolbox \<Rightarrow> bool" where
  "IsWMgrDraw tb = (thePort tb = WMgrCPort tb)"

text \<open>
  The walk over the window list: it stops at the window that has no next one, and
  asks \<open>RectInRgn\<close> only of a structure region that is there.
\<close>

fun RectInAnyStruc :: "toolbox \<Rightarrow> Rect \<Rightarrow> WindowRecord list \<Rightarrow> bool" where
  "RectInAnyStruc tb r [] = False"
| "RectInAnyStruc tb r [win] = False"
| "RectInAnyStruc tb r (win # nxt # wins) =
     (if deref (rgns tb) (strucRgn win) \<noteq> None \<and> RectInRgn tb r (strucRgn win) then True
      else RectInAnyStruc tb r (nxt # wins))"

definition IsRectInAnyWindowStruc :: "toolbox \<Rightarrow> Rect \<Rightarrow> bool" where
  "IsRectInAnyWindowStruc tb r = RectInAnyStruc tb r (WindowList tb)"

text \<open>
  The condition of \<^verbatim>\<open>PatchedFillCRgn\<close> under which it calls the renderer, with the
  globals as \<open>EnsureScreenInfo\<close> leaves them.
\<close>

definition FillCRgn_guard :: "addr \<Rightarrow> machine \<Rightarrow> bool \<times> machine" where
  "FillCRgn_guard rgn st =
     (let (ready, st') = EnsureScreenInfo st
      in (ready \<and>
          (case deref (rgns (host st')) rgn of
             None \<Rightarrow> False
           | Some R \<Rightarrow>
               IsWMgrDraw (host st') \<and>
               (let bbox = rgnBBox R
                in sint (right bbox) - sint (left bbox) \<ge> 4 \<and>
                   sint (bottom bbox) - sint (top' bbox) \<ge> 4 \<and>
                   sint (right bbox) - sint (left bbox) \<le> 250 \<and>
                   sint (bottom bbox) - sint (top' bbox) \<le> 250 \<and>
                   sint (top' bbox) \<ge> sint (MBarHeight (host st')) \<and>
                   \<not> IsRectInAnyWindowStruc (host st') bbox)),
          st'))"

text \<open>
  The same for \<^verbatim>\<open>PatchedEraseRect\<close>, whose rectangle pointer may be nil, followed by
  the pattern it renders: the background pattern of the port at \<^verbatim>\<open>0x0D2C\<close>, when both
  the port and the pattern are there.
\<close>

definition EraseRect_guard :: "Rect option \<Rightarrow> machine \<Rightarrow> bool \<times> machine" where
  "EraseRect_guard rp st =
     (let (ready, st') = EnsureScreenInfo st
      in (ready \<and>
          (case rp of
             None \<Rightarrow> False
           | Some r \<Rightarrow>
               IsWMgrDraw (host st') \<and>
               sint (right r) - sint (left r) \<ge> 2 \<and>
               sint (bottom r) - sint (top' r) \<ge> 2 \<and>
               sint (right r) - sint (left r) \<le> 250 \<and>
               sint (bottom r) - sint (top' r) \<le> 250 \<and>
               sint (top' r) \<ge> sint (MBarHeight (host st')) \<and>
               \<not> IsRectInAnyWindowStruc (host st') r),
          st'))"

definition EraseRect_pattern :: "toolbox \<Rightarrow> addr option" where
  "EraseRect_pattern tb =
     (let wmPort = WMgrCPort tb
      in if wmPort \<noteq> 0 \<and> bkPixPat (cports tb wmPort) \<noteq> 0
         then Some (bkPixPat (cports tb wmPort)) else None)"

text \<open>What each patch does once the original has returned, up to clearing the flag.\<close>

definition FillCRgn_fix :: "addr \<Rightarrow> addr \<Rightarrow> machine \<Rightarrow> machine option" where
  "FillCRgn_fix rgn pp st =
     (let (fire, st') = FillCRgn_guard rgn (observe GuardEval st)
      in if fire then RenderPatternInRgn rgn pp (observe (RenderRgn rgn pp) st')
         else Some st')"

definition EraseRect_fix :: "Rect option \<Rightarrow> machine \<Rightarrow> machine option" where
  "EraseRect_fix rp st =
     (let (fire, st') = EraseRect_guard rp (observe GuardEval st)
      in case (if fire then rp else None) of
           None \<Rightarrow> Some st'
         | Some r \<Rightarrow>
             (case EraseRect_pattern (host st') of
                None \<Rightarrow> Some st'
              | Some bkPat \<Rightarrow> RenderPatternInRect r bkPat (observe (RenderRect r bkPat) st')))"

section \<open>The interception layer\<close>

text \<open>
  One run of a saved original (\<^verbatim>\<open>gOldFillCRgn\<close>, \<^verbatim>\<open>gOldEraseRect\<close>): it works on the
  host, and it may itself go through the trap table, where it meets the patches again.
  A run is the sequence of what the original does; a trap carries the run of the saved
  original inside that nested call, and then the rest of the caller's run. The
  original has no access to the globals of the patch.
\<close>

datatype oldrun =
  Return
  | Effect "toolbox \<Rightarrow> toolbox" oldrun
  | TrapFillCRgn addr addr oldrun oldrun
  | TrapEraseRect "Rect option" oldrun oldrun

fun run_old :: "oldrun \<Rightarrow> machine \<Rightarrow> machine option"
  and PatchedFillCRgn :: "oldrun \<Rightarrow> addr \<Rightarrow> addr \<Rightarrow> machine \<Rightarrow> machine option"
  and PatchedEraseRect :: "oldrun \<Rightarrow> Rect option \<Rightarrow> machine \<Rightarrow> machine option"
where
  "run_old Return st = Some st"
| "run_old (Effect f k) st = run_old k (st\<lparr>host := f (host st)\<rparr>)"
| "run_old (TrapFillCRgn rgn pp inner k) st =
     (case PatchedFillCRgn inner rgn pp st of
        None \<Rightarrow> None
      | Some st' \<Rightarrow> run_old k st')"
| "run_old (TrapEraseRect r inner k) st =
     (case PatchedEraseRect inner r st of
        None \<Rightarrow> None
      | Some st' \<Rightarrow> run_old k st')"
| "PatchedFillCRgn old rgn pp st =
     (if gInPatch st \<noteq> 0 then run_old old (observe (OrigFillCRgn rgn pp) st)
      else
        (case run_old old (observe (OrigFillCRgn rgn pp) (st\<lparr>gInPatch := 1\<rparr>)) of
           None \<Rightarrow> None
         | Some st1 \<Rightarrow>
             (case FillCRgn_fix rgn pp st1 of
                None \<Rightarrow> None
              | Some st2 \<Rightarrow> Some (st2\<lparr>gInPatch := 0\<rparr>))))"
| "PatchedEraseRect old r st =
     (if gInPatch st \<noteq> 0 then run_old old (observe (OrigEraseRect r) st)
      else
        (case run_old old (observe (OrigEraseRect r) (st\<lparr>gInPatch := 1\<rparr>)) of
           None \<Rightarrow> None
         | Some st1 \<Rightarrow>
             (case EraseRect_fix r st1 of
                None \<Rightarrow> None
              | Some st2 \<Rightarrow> Some (st2\<lparr>gInPatch := 0\<rparr>))))"

section \<open>Notions the properties are stated with\<close>

text \<open>The shorts from \<open>a\<close> up to, and without, \<open>b\<close>, in increasing order.\<close>

definition span :: "short \<Rightarrow> short \<Rightarrow> short list" where
  "span a b = map word_of_int [sint a .. sint b - 1]"

text \<open>
  The tiling as the specification words it: the pixel of the surface at \<open>(x, y)\<close> shows
  the tile's pixel at row \<open>y mod H\<close> and column \<open>x mod W\<close> (\<open>mod\<close> on \<open>int\<close> is the
  mathematical one, never negative for a positive modulus), looked up in the palette
  and packed.
\<close>

definition spec_tile_pixel :: "tile \<Rightarrow> short \<Rightarrow> short \<Rightarrow> 32 word" where
  "spec_tile_pixel T y x =
     pixel32_of (ctTable T (tileData T
       ((sint y mod sint (tileH T)) * sint (tileRowBytes T) + sint x mod sint (tileW T))))"

definition row_writes :: "tile \<Rightarrow> short list \<Rightarrow> short \<Rightarrow> pixel_write list" where
  "row_writes T xs y = map (\<lambda>x. (y, x, spec_tile_pixel T y x)) xs"

text \<open>Where a store goes: its row and its column.\<close>

definition coord :: "pixel_write \<Rightarrow> Point" where
  "coord w = (fst w, fst (snd w))"

text \<open>The places a run of the loops stores to; none when the run does not return.\<close>

definition written :: "pixel_write list option \<Rightarrow> Point set" where
  "written res = (case res of None \<Rightarrow> {} | Some ws \<Rightarrow> coord ` set ws)"

text \<open>
  The part of a target rectangle that lies on the cached surface: the points of the
  rectangle whose row is in \<open>[0, gScreenHeight)\<close> and whose column is in
  \<open>[0, gScreenWidth)\<close>.
\<close>

definition screen_part :: "machine \<Rightarrow> Rect \<Rightarrow> Point set" where
  "screen_part st r =
     {(y, x). sint (top' r) \<le> sint y \<and> sint y < sint (bottom r) \<and>
              sint (left r) \<le> sint x \<and> sint x < sint (right r) \<and>
              0 \<le> sint y \<and> sint y < sint (gScreenHeight st) \<and>
              0 \<le> sint x \<and> sint x < sint (gScreenWidth st)}"

text \<open>
  Reading a trace: the entries that say a renderer was entered, and the entries that
  come from the corrective part of a patch at all (guard, renderer, stores).
\<close>

fun is_render :: "event \<Rightarrow> bool" where
  "is_render (RenderRgn rgn pp) = True"
| "is_render (RenderRect r pp) = True"
| "is_render e = False"

fun is_fix :: "event \<Rightarrow> bool" where
  "is_fix (OrigFillCRgn rgn pp) = False"
| "is_fix (OrigEraseRect r) = False"
| "is_fix e = True"

text \<open>Between \<open>st\<close> and \<open>st'\<close> a renderer was entered.\<close>

definition fired :: "machine \<Rightarrow> machine \<Rightarrow> bool" where
  "fired st st' = (filter is_render (trace st') \<noteq> filter is_render (trace st))"

text \<open>
  The guard as the specification lists it, for an area with bounding box \<open>bbox\<close> and
  the minimum \<open>lo\<close> of its form (4 for a region, 2 for a rectangle): the surface cache
  is ready (the query answers true), the current port is the Window Manager's, width
  and height are between \<open>lo\<close> and 250, the top edge is not above the menu bar's
  height, and no window but the last of the list has a structure region that the box
  meets.
\<close>

definition claimed_guard :: "int \<Rightarrow> machine \<Rightarrow> Rect \<Rightarrow> bool" where
  "claimed_guard lo st bbox =
     (fst (EnsureScreenInfo st) \<and>
      thePort (host st) = WMgrCPort (host st) \<and>
      lo \<le> sint (right bbox) - sint (left bbox) \<and>
      sint (right bbox) - sint (left bbox) \<le> 250 \<and>
      lo \<le> sint (bottom bbox) - sint (top' bbox) \<and>
      sint (bottom bbox) - sint (top' bbox) \<le> 250 \<and>
      sint (MBarHeight (host st)) \<le> sint (top' bbox) \<and>
      (\<forall>win \<in> set (butlast (WindowList (host st))).
         \<not> (deref (rgns (host st)) (strucRgn win) \<noteq> None \<and>
            RectInRgn (host st) bbox (strucRgn win))))"

text \<open>
  The capability query would succeed on this host: the main device is there, its pixel
  map is there, and the depth is exactly 32.
\<close>

definition capable :: "toolbox \<Rightarrow> bool" where
  "capable tb =
     (case deref (gdevices tb) (GetMainDevice tb) of
        None \<Rightarrow> False
      | Some dev \<Rightarrow>
          (case deref (pixmaps tb) (gdPMap dev) of
             None \<Rightarrow> False
           | Some pm \<Rightarrow> pixelSize pm = 32))"

text \<open>The cached surface descriptor.\<close>

definition cache :: "machine \<Rightarrow> addr \<times> 32 word \<times> short \<times> short \<times> short" where
  "cache st = (gScreenBase st, gScreenRowBytes st, gScreenWidth st, gScreenHeight st,
               gScreenReady st)"

text \<open>
  The tile a renderer works with: what the checks of \<^verbatim>\<open>RenderPatternInRgn\<close> and
  \<^verbatim>\<open>RenderPatternInRect\<close> leave of a pattern handle that passes them all (there, type
  1, pixel map and pixel data there, width and height positive, depth 8, palette
  there), and nothing for a pattern that fails one.
\<close>

definition pattern_tile :: "toolbox \<Rightarrow> addr \<Rightarrow> tile option" where
  "pattern_tile tb pp =
     (case deref (pixpats tb) pp of
        None \<Rightarrow> None
      | Some pat \<Rightarrow>
          if patType pat \<noteq> 1 then None
          else
            (case deref (pixmaps tb) (patMap pat) of
               None \<Rightarrow> None
             | Some pm \<Rightarrow>
                 (case deref (datas tb) (patData pat) of
                    None \<Rightarrow> None
                  | Some pd \<Rightarrow>
                      (let tw = (word_of_int (sint (right (bounds pm)) - sint (left (bounds pm))) :: short);
                           th = (word_of_int (sint (bottom (bounds pm)) - sint (top' (bounds pm))) :: short)
                       in if sint tw \<le> 0 \<or> sint th \<le> 0 \<or> pixelSize pm \<noteq> 8 then None
                          else
                            (case deref (ctabs tb) (pmTable pm) of
                               None \<Rightarrow> None
                             | Some ct \<Rightarrow>
                                 Some \<lparr>tileW = tw, tileH = th,
                                       tileRowBytes = rowBytes pm AND 0x3FFF,
                                       tileData = pd, ctTable = ct\<rparr>)))))"

text \<open>
  What a call of a renderer stores, by the tile of its pattern: the stores of the loops
  over the target area, none when the pattern fails a check.
\<close>

definition stores :: "pixel_write list option \<Rightarrow> pixel_write list" where
  "stores res = (case res of None \<Rightarrow> [] | Some ws \<Rightarrow> ws)"

definition rect_stores :: "machine \<Rightarrow> Rect \<Rightarrow> addr \<Rightarrow> pixel_write list" where
  "rect_stores st r pp =
     (case pattern_tile (host st) pp of
        None \<Rightarrow> []
      | Some T \<Rightarrow> stores (RectPixels st T r))"

definition rgn_stores :: "machine \<Rightarrow> addr \<Rightarrow> addr \<Rightarrow> pixel_write list" where
  "rgn_stores st rgn pp =
     (case pattern_tile (host st) pp of
        None \<Rightarrow> []
      | Some T \<Rightarrow>
          (case deref (rgns (host st)) rgn of
             None \<Rightarrow> []
           | Some R \<Rightarrow> stores (RgnPixels st rgn T (rgnBBox R))))"

text \<open>
  A call that went from \<open>st\<close> to the result \<open>res\<close> has stored \<open>ws\<close>: if it returned,
  the trace has gained the stores \<open>ws\<close> and nothing else, and the frame buffer is the
  old one with \<open>ws\<close> applied in order.
\<close>

definition call_stores :: "machine \<Rightarrow> machine option \<Rightarrow> pixel_write list \<Rightarrow> bool" where
  "call_stores st res ws =
     (case res of
        None \<Rightarrow> True
      | Some st' \<Rightarrow>
          trace st' = trace st @ map (\<lambda>(y, x, v). Plot y x v) ws \<and>
          mem (host st') =
            foldl (\<lambda>m (y, x, v). poke32 m (pixel_addr st y x) v) (mem (host st)) ws)"

text \<open>The four bytes of the pixel at a point.\<close>

definition touched :: "machine \<Rightarrow> Point \<Rightarrow> addr set" where
  "touched st p =
     {pixel_addr st (fst p) (snd p), pixel_addr st (fst p) (snd p) + 1,
      pixel_addr st (fst p) (snd p) + 2, pixel_addr st (fst p) (snd p) + 3}"

section \<open>A small desktop\<close>

text \<open>
  A 20 by 20 screen of 32 bits a pixel, a menu bar of height 2, a 4 by 4 pattern whose
  every palette entry is pure red, a square region from (5, 5) to (9, 9), and two
  windows, the last of them the desktop's own.
\<close>

definition red_entry :: ColorSpec where
  "red_entry = \<lparr>cvalue = 0, rgb = \<lparr>red = 0xFFFF, green = 0, blue = 0\<rparr>\<rparr>"

definition demo_tile :: tile where
  "demo_tile =
     \<lparr>tileW = 4, tileH = 4, tileRowBytes = 4, tileData = (\<lambda>i. 0),
      ctTable = (\<lambda>i. red_entry)\<rparr>"

definition tile_map :: PixMap where
  "tile_map =
     \<lparr>baseAddr = 0, rowBytes = 0x8004,
      bounds = \<lparr>top' = 0, left = 0, bottom = 4, right = 4\<rparr>,
      pixelSize = 8, pmTable = 0x400\<rparr>"

definition screen_map :: PixMap where
  "screen_map =
     \<lparr>baseAddr = 0x10000, rowBytes = 0x8050,
      bounds = \<lparr>top' = 0, left = 0, bottom = 20, right = 20\<rparr>,
      pixelSize = 32, pmTable = 0\<rparr>"

definition demo_bbox :: Rect where
  "demo_bbox = \<lparr>top' = 5, left = 5, bottom = 9, right = 9\<rparr>"

definition demo_host :: toolbox where
  "demo_host =
     \<lparr>hstate = (\<lambda>h. 0),
      pixpats = (\<lambda>h. if h = 0x100
                      then Some \<lparr>patType = 1, patMap = 0x200, patData = 0x300\<rparr> else None),
      pixmaps = (\<lambda>h. if h = 0x200 then Some tile_map
                      else if h = 0x700 then Some screen_map else None),
      datas = (\<lambda>h. if h = 0x300 then Some (\<lambda>i. 0) else None),
      ctabs = (\<lambda>h. if h = 0x400 then Some (\<lambda>i. red_entry) else None),
      rgns = (\<lambda>h. if h = 0x500 then Some \<lparr>rgnBBox = demo_bbox\<rparr>
                   else if h = 0x580
                   then Some \<lparr>rgnBBox = \<lparr>top' = 12, left = 12, bottom = 18, right = 18\<rparr>\<rparr>
                   else if h = 0x900
                   then Some \<lparr>rgnBBox = \<lparr>top' = 0, left = 0, bottom = 20, right = 20\<rparr>\<rparr>
                   else None),
      gdevices = (\<lambda>h. if h = 0x600 then Some \<lparr>gdPMap = 0x700\<rparr> else None),
      GetMainDevice = 0x600,
      thePort = 0x800,
      WMgrCPort = 0x800,
      cports = (\<lambda>p. \<lparr>bkPixPat = 0x100\<rparr>),
      MBarHeight = 2,
      WindowList = [\<lparr>strucRgn = 0x580\<rparr>, \<lparr>strucRgn = 0x900\<rparr>],
      PtInRgn = (\<lambda>p h. h = 0x500 \<and> 5 \<le> sint (fst p) \<and> sint (fst p) < 9 \<and>
                        5 \<le> sint (snd p) \<and> sint (snd p) < 9),
      RectInRgn = (\<lambda>r h. h = 0x900),
      mem = (\<lambda>a. 0)\<rparr>"

text \<open>The machine before the first call, and once the screen has been cached.\<close>

definition demo_cold :: machine where
  "demo_cold =
     \<lparr>gInPatch = 0, gScreenBase = 0, gScreenRowBytes = 0, gScreenWidth = 0,
      gScreenHeight = 0, gScreenReady = 0, host = demo_host, trace = []\<rparr>"

definition demo :: machine where
  "demo =
     \<lparr>gInPatch = 0, gScreenBase = 0x10000, gScreenRowBytes = 80, gScreenWidth = 20,
      gScreenHeight = 20, gScreenReady = 1, host = demo_host, trace = []\<rparr>"

text \<open>
  Variations: a desktop port without a background pattern; a main device of 8 bits a
  pixel, and the machine before its first call on that device; a pattern whose pixel
  map has no width.
\<close>

definition demo_nopat :: machine where
  "demo_nopat = demo\<lparr>host := demo_host\<lparr>cports := (\<lambda>p. \<lparr>bkPixPat = 0\<rparr>)\<rparr>\<rparr>"

definition demo_host8 :: toolbox where
  "demo_host8 =
     demo_host\<lparr>pixmaps := (\<lambda>h. if h = 0x200 then Some tile_map
                      else if h = 0x700 then Some (screen_map\<lparr>pixelSize := 8\<rparr>) else None)\<rparr>"

definition cold8 :: machine where
  "cold8 = demo_cold\<lparr>host := demo_host8\<rparr>"

definition flat_host :: toolbox where
  "flat_host =
     demo_host\<lparr>pixmaps := (\<lambda>h. if h = 0x200
                      then Some (tile_map\<lparr>bounds := \<lparr>top' = 0, left = 4, bottom = 4, right = 4\<rparr>\<rparr>)
                      else if h = 0x700 then Some screen_map else None)\<rparr>"

definition flat :: machine where
  "flat = demo\<lparr>host := flat_host\<rparr>"

section \<open>Shorts\<close>

lemma sint_succ: "sint (x::short) < sint (r::short) \<Longrightarrow> sint (x + 1) = sint x + 1"
proof -
  assume a: "sint x < sint r"
  have "sint r < 2 ^ 15" using sint_lt [of r] by simp
  moreover have "- (2 ^ 15) \<le> sint x" using sint_ge [of x] by simp
  ultimately have "signed_take_bit 15 (sint x + 1) = sint x + 1"
    using a by (intro signed_take_bit_int_eq_self) auto
  then show ?thesis by (simp add: sint_word_ariths)
qed

lemma sint_short_of_int: "- 32768 \<le> k \<Longrightarrow> k < 32768 \<Longrightarrow> sint (word_of_int k :: short) = k"
  by (simp add: sint_sbintrunc' signed_take_bit_int_eq_self)

lemma short_range: "- 32768 \<le> sint (x::short) \<and> sint x < 32768"
  using sint_ge [of x] sint_lt [of x] by simp

lemma span_step: "sint x < sint r \<Longrightarrow> span x r = x # span (x + 1) r"
  by (simp add: span_def sint_succ upto_rec1 [of "sint x"])

lemma span_empty: "\<not> sint x < sint r \<Longrightarrow> span x r = []"
  by (simp add: span_def)

lemma set_span: "set (span a b) = {x. sint a \<le> sint x \<and> sint x < sint b}"
proof (rule set_eqI, rule iffI)
  fix x :: short assume "x \<in> set (span a b)"
  then obtain k where k: "x = word_of_int k" "sint a \<le> k" "k \<le> sint b - 1"
    by (auto simp add: span_def)
  have "sint (word_of_int k :: short) = k"
    using k short_range [of a] short_range [of b] by (intro sint_short_of_int) auto
  then show "x \<in> {x. sint a \<le> sint x \<and> sint x < sint b}" using k by simp
next
  fix x :: short assume "x \<in> {x. sint a \<le> sint x \<and> sint x < sint b}"
  then have "sint x \<in> {sint a..sint b - 1}" by simp
  moreover have "x = word_of_int (sint x)" by simp
  ultimately have "x \<in> word_of_int ` {sint a..sint b - 1}" by (rule rev_image_eqI)
  then show "x \<in> set (span a b)" by (simp add: span_def)
qed

section \<open>The remainder and the tile coordinate\<close>

lemma c_rem_pos:
  assumes "0 < b"
  shows "\<exists>r. c_rem a b = Some r \<and> - b < r \<and> r < b \<and> (if r < 0 then r + b else r) = a mod b"
proof (cases "0 \<le> a")
  case True
  have b0: "0 \<le> a mod b" "a mod b < b" using assms by simp_all
  show ?thesis using assms True b0 by (auto simp add: c_rem_def sgn_if)
next
  case False
  then have n: "a < 0" by simp
  have m: "(- a) mod b = (if a mod b = 0 then 0 else b - a mod b)"
    by (rule zmod_zminus1_eq_if)
  have b1: "0 \<le> a mod b" "a mod b < b" using assms by simp_all
  show ?thesis using assms n m b1 by (auto simp add: c_rem_def sgn_if)
qed

lemma sint_tile_coord:
  assumes "0 < sint (w::short)"
  shows "sint (word_of_int (sint (x::short) mod sint w) :: short) = sint x mod sint w"
proof -
  have "sint w < 32768" using short_range [of w] by simp
  moreover have "0 \<le> sint x mod sint w" "sint x mod sint w < sint w" using assms by simp_all
  ultimately show ?thesis by (intro sint_short_of_int) auto
qed

lemma tile_coord_pos:
  assumes "0 < sint (w::short)"
  shows "tile_coord x w = Some (word_of_int (sint x mod sint w))"
proof -
  obtain r where r: "c_rem (sint x) (sint w) = Some r" "- sint w < r" "r < sint w"
    "(if r < 0 then r + sint w else r) = sint x mod sint w"
    using c_rem_pos [OF assms, of "sint x"] by blast
  have w: "sint w < 32768" using short_range [of w] by simp
  have sr: "sint (word_of_int r :: short) = r"
    using r w by (intro sint_short_of_int) auto
  have ad: "word_of_int r + w = word_of_int (r + sint w)" by simp
  show ?thesis using r sr by (auto simp add: tile_coord_def Let_def ad simp del: of_int_add)
qed

section \<open>What the loops store\<close>

lemma RectRow_eq:
  assumes "0 < sint (tileW T)"
  shows "RectRow T y ty x r =
    Some (map (\<lambda>x'. (y, x', pixel32_of (ctTable T
            (pixVal T ty (word_of_int (sint x' mod sint (tileW T))))))) (span x r))"
  using assms
proof (induction T y ty x r rule: RectRow.induct)
  case (1 T y ty x r)
  show ?case
  proof (cases "sint x < sint r")
    case True
    then show ?thesis
      using 1 by (subst RectRow.simps) (simp add: tile_coord_pos span_step)
  next
    case False
    then show ?thesis by (subst RectRow.simps) (simp add: span_empty)
  qed
qed

lemma RgnRow_eq:
  assumes "0 < sint (tileW T)"
  shows "RgnRow inRgn rgn T y ty x r =
    Some (map (\<lambda>x'. (y, x', pixel32_of (ctTable T
            (pixVal T ty (word_of_int (sint x' mod sint (tileW T)))))))
           (filter (\<lambda>x'. inRgn (y, x') rgn) (span x r)))"
  using assms
proof (induction inRgn rgn T y ty x r rule: RgnRow.induct)
  case (1 inRgn rgn T y ty x r)
  show ?case
  proof (cases "sint x < sint r")
    case True
    then show ?thesis
      using 1 by (subst RgnRow.simps) (simp add: tile_coord_pos span_step)
  next
    case False
    then show ?thesis by (subst RgnRow.simps) (simp add: span_empty)
  qed
qed

lemma RectRow_spec:
  assumes "0 < sint (tileW T)" "0 < sint (tileH T)"
  shows "RectRow T y (word_of_int (sint y mod sint (tileH T))) l r
           = Some (row_writes T (span l r) y)"
  using assms
  by (simp add: RectRow_eq row_writes_def spec_tile_pixel_def pixVal_def sint_tile_coord)

lemma RgnRow_spec:
  assumes "0 < sint (tileW T)" "0 < sint (tileH T)"
  shows "RgnRow inRgn rgn T y (word_of_int (sint y mod sint (tileH T))) l r =
    Some (row_writes T (filter (\<lambda>x'. inRgn (y, x') rgn) (span l r)) y)"
  using assms
  by (simp add: RgnRow_eq row_writes_def spec_tile_pixel_def pixVal_def sint_tile_coord)

lemma RectRows_eq:
  assumes "0 < sint (tileW T)" "0 < sint (tileH T)"
  shows "RectRows T y b l r = Some (concat (map (row_writes T (span l r)) (span y b)))"
  using assms
proof (induction T y b l r rule: RectRows.induct)
  case (1 T y b l r)
  show ?case
  proof (cases "sint y < sint b")
    case True
    have ih: "RectRows T (y + 1) b l r
                = Some (concat (map (row_writes T (span l r)) (span (y + 1) b)))"
      using 1 True by (simp add: tile_coord_pos RectRow_spec)
    show ?thesis
      using True 1(2,3)
      by (subst RectRows.simps) (simp add: tile_coord_pos span_step RectRow_spec ih)
  next
    case False
    then show ?thesis by (subst RectRows.simps) (simp add: span_empty)
  qed
qed

lemma RgnRows_eq:
  assumes "0 < sint (tileW T)" "0 < sint (tileH T)"
  shows "RgnRows inRgn rgn T y b l r =
    Some (concat (map (\<lambda>y'. row_writes T (filter (\<lambda>x'. inRgn (y', x') rgn) (span l r)) y')
                      (span y b)))"
  using assms
proof (induction inRgn rgn T y b l r rule: RgnRows.induct)
  case (1 inRgn rgn T y b l r)
  show ?case
  proof (cases "sint y < sint b")
    case True
    have ih: "RgnRows inRgn rgn T (y + 1) b l r =
       Some (concat (map (\<lambda>y'. row_writes T (filter (\<lambda>x'. inRgn (y', x') rgn) (span l r)) y')
                         (span (y + 1) b)))"
      using 1 True by (simp add: tile_coord_pos RgnRow_spec)
    show ?thesis
      using True 1(2,3)
      by (subst RgnRows.simps) (simp add: tile_coord_pos span_step RgnRow_spec ih)
  next
    case False
    then show ?thesis by (subst RgnRows.simps) (simp add: span_empty)
  qed
qed

lemma RectPixels_eq:
  assumes "0 < sint (tileW T)" "0 < sint (tileH T)"
  shows "RectPixels st T r =
    Some (concat (map (row_writes T (span (left (ClipToScreen st r)) (right (ClipToScreen st r))))
                      (span (top' (ClipToScreen st r)) (bottom (ClipToScreen st r)))))"
proof (cases "sint (left (ClipToScreen st r)) < sint (right (ClipToScreen st r)) \<and>
              sint (top' (ClipToScreen st r)) < sint (bottom (ClipToScreen st r))")
  case True
  then show ?thesis using assms by (simp add: RectPixels_def Let_def RectRows_eq)
next
  case False
  then have "span (left (ClipToScreen st r)) (right (ClipToScreen st r)) = [] \<or>
             span (top' (ClipToScreen st r)) (bottom (ClipToScreen st r)) = []"
    by (auto simp add: span_empty)
  then show ?thesis using False by (auto simp add: RectPixels_def Let_def row_writes_def)
qed

lemma RgnPixels_eq:
  assumes "0 < sint (tileW T)" "0 < sint (tileH T)"
  shows "RgnPixels st rgn T r =
    Some (concat (map (\<lambda>y'. row_writes T
                          (filter (\<lambda>x'. PtInRgn (host st) (y', x') rgn)
                             (span (left (ClipToScreen st r)) (right (ClipToScreen st r)))) y')
                      (span (top' (ClipToScreen st r)) (bottom (ClipToScreen st r)))))"
proof (cases "sint (left (ClipToScreen st r)) < sint (right (ClipToScreen st r)) \<and>
              sint (top' (ClipToScreen st r)) < sint (bottom (ClipToScreen st r))")
  case True
  then show ?thesis using assms by (simp add: RgnPixels_def Let_def RgnRows_eq)
next
  case False
  then have "span (left (ClipToScreen st r)) (right (ClipToScreen st r)) = [] \<or>
             span (top' (ClipToScreen st r)) (bottom (ClipToScreen st r)) = []"
    by (auto simp add: span_empty)
  then show ?thesis using False by (auto simp add: RgnPixels_def Let_def row_writes_def)
qed

lemma set_rect_writes:
  "set (concat (map (row_writes T xs) ys)) =
     {(y, x, spec_tile_pixel T y x) | y x. y \<in> set ys \<and> x \<in> set xs}"
  by (auto simp add: row_writes_def)

lemma set_rgn_writes:
  "set (concat (map (\<lambda>y. row_writes T (filter (\<lambda>x. P (y, x)) xs) y) ys)) =
     {(y, x, spec_tile_pixel T y x) | y x. y \<in> set ys \<and> x \<in> set xs \<and> P (y, x)}"
  by (auto simp add: row_writes_def)

lemma clip_edges:
  "sint (left (ClipToScreen st r)) = max 0 (sint (left r))"
  "sint (top' (ClipToScreen st r)) = max 0 (sint (top' r))"
  "sint (right (ClipToScreen st r)) = min (sint (right r)) (sint (gScreenWidth st))"
  "sint (bottom (ClipToScreen st r)) = min (sint (bottom r)) (sint (gScreenHeight st))"
  by (simp_all add: ClipToScreen_def)

lemma coord_row_writes: "coord ` set (row_writes T xs y) = (\<lambda>x. (y, x)) ` set xs"
  by (auto simp add: row_writes_def coord_def image_iff)

lemma written_RectPixels:
  assumes "0 < sint (tileW T)" "0 < sint (tileH T)"
  shows "written (RectPixels st T r) = screen_part st r"
  unfolding RectPixels_eq [OF assms] written_def
  by (auto simp add: image_UN coord_row_writes set_span clip_edges screen_part_def)

lemma written_RgnPixels:
  assumes "0 < sint (tileW T)" "0 < sint (tileH T)"
  shows "written (RgnPixels st rgn T r) = {p \<in> screen_part st r. PtInRgn (host st) p rgn}"
  unfolding RgnPixels_eq [OF assms] written_def
  by (auto simp add: image_UN coord_row_writes set_span clip_edges screen_part_def)

lemma set_RgnPixels_subset:
  assumes "0 < sint (tileW T)" "0 < sint (tileH T)"
  shows "\<exists>wr wq. RgnPixels st rgn T r = Some wr \<and> RectPixels st T r = Some wq \<and>
           set wr \<subseteq> set wq"
  unfolding RgnPixels_eq [OF assms] RectPixels_eq [OF assms]
  by (auto simp add: row_writes_def)

lemma demo_tile_dims: "0 < sint (tileW demo_tile)" "0 < sint (tileH demo_tile)"
  by (simp_all add: demo_tile_def)

lemma observe_fields [simp]:
  "host (observe e st) = host st" "trace (observe e st) = trace st @ [e]"
  "gInPatch (observe e st) = gInPatch st" "gScreenReady (observe e st) = gScreenReady st"
  by (simp_all add: observe_def)

lemma HLock_fields [simp]:
  "ctabs (HLock h tb) = ctabs tb" "rgns (HLock h tb) = rgns tb"
  "PtInRgn (HLock h tb) = PtInRgn tb" "mem (HLock h tb) = mem tb"
  by (simp_all add: HLock_def)

lemma pattern_tile_dims:
  "pattern_tile tb pp = Some T \<Longrightarrow> 0 < sint (tileW T) \<and> 0 < sint (tileH T)"
  by (auto simp add: pattern_tile_def Let_def split: option.splits if_splits)

lemma ClipToScreen_host [simp]: "ClipToScreen (st\<lparr>host := tb\<rparr>) r = ClipToScreen st r"
  by (simp add: ClipToScreen_def)

lemma RectPixels_host [simp]: "RectPixels (st\<lparr>host := tb\<rparr>) T r = RectPixels st T r"
  by (simp add: RectPixels_def)

lemma RgnPixels_host:
  "PtInRgn tb = PtInRgn (host st) \<Longrightarrow>
     RgnPixels (st\<lparr>host := tb\<rparr>) rgn T r = RgnPixels st rgn T r"
  by (simp add: RgnPixels_def Let_def)

lemma pixel_addr_host [simp]: "pixel_addr (st\<lparr>host := tb\<rparr>) = pixel_addr st"
  by (simp add: pixel_addr_def fun_eq_iff)

lemma HSetState_mem [simp]: "mem (HSetState h s tb) = mem tb"
  by (simp add: HSetState_def)

lemma RenderPatternInRect_does:
  "call_stores st (RenderPatternInRect r pp st) (rect_stores st r pp)"
  by (auto simp add: call_stores_def RenderPatternInRect_def rect_stores_def pattern_tile_def
      stores_def Let_def store_pixels_def split: option.splits if_splits)

lemma RenderPatternInRgn_does:
  "call_stores st (RenderPatternInRgn rgn pp st) (rgn_stores st rgn pp)"
  by (auto simp add: call_stores_def RenderPatternInRgn_def rgn_stores_def pattern_tile_def
      stores_def Let_def store_pixels_def RgnPixels_host split: option.splits if_splits)

lemma rect_stores_eq:
  "pattern_tile (host st) pp = Some T \<Longrightarrow> RectPixels st T r = Some (rect_stores st r pp)"
  using RectPixels_eq [of T st r]
  by (auto simp add: rect_stores_def stores_def dest!: pattern_tile_dims)

lemma rgn_stores_eq:
  "pattern_tile (host st) pp = Some T \<Longrightarrow> deref (rgns (host st)) rgn = Some R \<Longrightarrow>
     RgnPixels st rgn T (rgnBBox R) = Some (rgn_stores st rgn pp)"
  using RgnPixels_eq [of T st rgn "rgnBBox R"]
  by (auto simp add: rgn_stores_def stores_def dest!: pattern_tile_dims)

lemma coord_rect_stores: "coord ` set (rect_stores st r pp) \<subseteq> screen_part st r"
proof (cases "pattern_tile (host st) pp")
  case None
  then show ?thesis by (simp add: rect_stores_def)
next
  case (Some T)
  have d: "0 < sint (tileW T)" "0 < sint (tileH T)" using pattern_tile_dims [OF Some] by simp_all
  show ?thesis
    using written_RectPixels [OF d, of st r] rect_stores_eq [OF Some, of r]
    by (simp add: written_def)
qed

lemma coord_rgn_stores:
  "deref (rgns (host st)) rgn = Some R \<Longrightarrow>
     coord ` set (rgn_stores st rgn pp)
       \<subseteq> {p \<in> screen_part st (rgnBBox R). PtInRgn (host st) p rgn}"
proof (cases "pattern_tile (host st) pp")
  case None
  then show ?thesis by (simp add: rgn_stores_def)
next
  case (Some T)
  assume R: "deref (rgns (host st)) rgn = Some R"
  have d: "0 < sint (tileW T)" "0 < sint (tileH T)" using pattern_tile_dims [OF Some] by simp_all
  show ?thesis
    using written_RgnPixels [OF d, of st rgn "rgnBBox R"] rgn_stores_eq [OF Some R]
    by (simp add: written_def)
qed

lemma foldl_poke_outside:
  "a \<notin> (\<Union>w \<in> set ws. touched st (coord w)) \<Longrightarrow>
   foldl (\<lambda>m (y, x, v). poke32 m (pixel_addr st y x) v) m0 ws a = m0 a"
proof (induction ws arbitrary: m0)
  case Nil
  then show ?case by simp
next
  case (Cons w ws)
  obtain y x v where w: "w = (y, x, v)" by (cases w) auto
  have "a \<notin> touched st (coord w)" using Cons.prems by simp
  then have "poke32 m0 (pixel_addr st y x) v a = m0 a"
    by (simp add: touched_def coord_def w poke32_def)
  moreover have "a \<notin> (\<Union>w \<in> set ws. touched st (coord w))" using Cons.prems by simp
  ultimately show ?case using Cons.IH [of "poke32 m0 (pixel_addr st y x) v"] by (simp add: w)
qed

lemma call_stores_mem:
  assumes "call_stores st (Some st') ws" and "coord ` set ws \<subseteq> A"
    and "mem (host st') a \<noteq> mem (host st) a"
  shows "\<exists>p \<in> A. a \<in> touched st p"
proof (rule ccontr)
  assume n: "\<not> (\<exists>p \<in> A. a \<in> touched st p)"
  then have "a \<notin> (\<Union>w \<in> set ws. touched st (coord w))" using assms(2) by auto
  then have "foldl (\<lambda>m (y, x, v). poke32 m (pixel_addr st y x) v) (mem (host st)) ws a
               = mem (host st) a"
    by (rule foldl_poke_outside)
  then show False using assms(1,3) by (simp add: call_stores_def)
qed

lemma Rect_mem_within:
  assumes "RenderPatternInRect r pp st = Some st'" and "mem (host st') a \<noteq> mem (host st) a"
  shows "\<exists>p \<in> screen_part st r. a \<in> touched st p"
proof -
  have "call_stores st (Some st') (rect_stores st r pp)"
    using RenderPatternInRect_does [of st r pp] assms(1) by simp
  then show ?thesis using coord_rect_stores assms(2) by (rule call_stores_mem)
qed

lemma Rgn_mem_within:
  assumes "RenderPatternInRgn rgn pp st = Some st'" and "mem (host st') a \<noteq> mem (host st) a"
    and "deref (rgns (host st)) rgn = Some R"
  shows "\<exists>p \<in> {p \<in> screen_part st (rgnBBox R). PtInRgn (host st) p rgn}. a \<in> touched st p"
proof -
  have "call_stores st (Some st') (rgn_stores st rgn pp)"
    using RenderPatternInRgn_does [of st rgn pp] assms(1) by simp
  then show ?thesis using coord_rgn_stores [OF assms(3)] assms(2) by (rule call_stores_mem)
qed

lemma rect_stores_values:
  assumes "w \<in> set (rect_stores st r pp)"
  shows "\<exists>T. pattern_tile (host st) pp = Some T \<and>
           snd (snd w) = spec_tile_pixel T (fst w) (fst (snd w))"
proof (cases "pattern_tile (host st) pp")
  case None
  then show ?thesis using assms by (simp add: rect_stores_def)
next
  case (Some T)
  have d: "0 < sint (tileW T)" "0 < sint (tileH T)" using pattern_tile_dims [OF Some] by simp_all
  have "RectPixels st T r = Some (rect_stores st r pp)" by (rule rect_stores_eq [OF Some])
  then have "w \<in> set (concat (map (row_writes T (span (left (ClipToScreen st r))
                 (right (ClipToScreen st r))))
               (span (top' (ClipToScreen st r)) (bottom (ClipToScreen st r)))))"
    using assms RectPixels_eq [OF d, of st r] by simp
  then show ?thesis using Some by (auto simp add: row_writes_def)
qed

lemma rgn_stores_values:
  assumes "w \<in> set (rgn_stores st rgn pp)"
  shows "\<exists>T. pattern_tile (host st) pp = Some T \<and>
           snd (snd w) = spec_tile_pixel T (fst w) (fst (snd w))"
proof (cases "pattern_tile (host st) pp")
  case None
  then show ?thesis using assms by (simp add: rgn_stores_def)
next
  case (Some T)
  have d: "0 < sint (tileW T)" "0 < sint (tileH T)" using pattern_tile_dims [OF Some] by simp_all
  show ?thesis
  proof (cases "deref (rgns (host st)) rgn")
    case None
    then show ?thesis using assms Some by (simp add: rgn_stores_def)
  next
    case (Some R)
    have "RgnPixels st rgn T (rgnBBox R) = Some (rgn_stores st rgn pp)"
      by (rule rgn_stores_eq [OF \<open>pattern_tile (host st) pp = Some T\<close> Some])
    then have "w \<in> set (concat (map (\<lambda>y'. row_writes T
                   (filter (\<lambda>x'. PtInRgn (host st) (y', x') rgn)
                      (span (left (ClipToScreen st (rgnBBox R)))
                            (right (ClipToScreen st (rgnBBox R))))) y')
                 (span (top' (ClipToScreen st (rgnBBox R)))
                       (bottom (ClipToScreen st (rgnBBox R))))))"
      using assms RgnPixels_eq [OF d, of st rgn "rgnBBox R"] by simp
    then show ?thesis using \<open>pattern_tile (host st) pp = Some T\<close>
      by (auto simp add: row_writes_def)
  qed
qed

lemma rgn_stores_within_rect_stores:
  assumes "deref (rgns (host st)) rgn = Some R"
  shows "set (rgn_stores st rgn pp) \<subseteq> set (rect_stores st (rgnBBox R) pp) \<and>
         coord ` set (rgn_stores st rgn pp)
           = {p \<in> coord ` set (rect_stores st (rgnBBox R) pp). PtInRgn (host st) p rgn}"
proof (cases "pattern_tile (host st) pp")
  case None
  then show ?thesis by (simp add: rgn_stores_def rect_stores_def)
next
  case (Some T)
  have d: "0 < sint (tileW T)" "0 < sint (tileH T)" using pattern_tile_dims [OF Some] by simp_all
  have a: "RgnPixels st rgn T (rgnBBox R) = Some (rgn_stores st rgn pp)"
    by (rule rgn_stores_eq [OF Some assms])
  have b: "RectPixels st T (rgnBBox R) = Some (rect_stores st (rgnBBox R) pp)"
    by (rule rect_stores_eq [OF Some])
  show ?thesis
    using set_RgnPixels_subset [OF d, of st rgn "rgnBBox R"]
      written_RgnPixels [OF d, of st rgn "rgnBBox R"] written_RectPixels [OF d, of st "rgnBBox R"]
    by (simp add: a b written_def)
qed

lemma RenderPatternInRect_total: "RenderPatternInRect r pp st \<noteq> None"
  by (auto simp add: RenderPatternInRect_def Let_def RectPixels_eq split: option.splits if_splits)

lemma RenderPatternInRgn_total:
  "deref (rgns (host st)) rgn \<noteq> None \<Longrightarrow> RenderPatternInRgn rgn pp st \<noteq> None"
  by (auto simp add: RenderPatternInRgn_def Let_def RgnPixels_eq split: option.splits if_splits)

lemma demo_pattern_tile: "pattern_tile (host demo) 0x100 = Some demo_tile"
  by (simp add: pattern_tile_def demo_def demo_host_def deref_def tile_map_def demo_tile_def
      Let_def)

lemma demo_region: "deref (rgns (host demo)) 0x500 = Some \<lparr>rgnBBox = demo_bbox\<rparr>"
  by (simp add: demo_def demo_host_def deref_def)

lemma written_stores: "res \<noteq> None \<Longrightarrow> coord ` set (stores res) = written res"
  by (auto simp add: stores_def written_def)

section \<open>Toroidal tiling\<close>

text \<open>
  Claim C1. For a pattern tile of width \<open>W > 0\<close> and height \<open>H > 0\<close>, the tile
  coordinate the source computes for a surface coordinate, negative ones included, is
  the mathematical \<open>x mod W\<close> (\<open>y mod H\<close>), which is never negative; and every store
  the loops of either renderer make at \<open>(x, y)\<close> carries the tile's pixel at row
  \<open>y mod H\<close>, column \<open>x mod W\<close>: the value depends on the tile and on \<open>(x, y)\<close> only,
  not on where the target area begins. So for the calls as a whole: what a call of
  either renderer stores are the stores of its loops for the tile of its pattern, a
  tile of positive width and height, each with that value.
\<close>

theorem tiling_anchored_at_origin:
  assumes "0 < sint (tileW T)" and "0 < sint (tileH T)"
  shows "(\<exists>tx. tile_coord x (tileW T) = Some tx \<and> sint tx = sint x mod sint (tileW T) \<and>
               0 \<le> sint tx \<and> sint tx < sint (tileW T)) \<and>
         (\<exists>ty. tile_coord y (tileH T) = Some ty \<and> sint ty = sint y mod sint (tileH T) \<and>
               0 \<le> sint ty \<and> sint ty < sint (tileH T)) \<and>
         (\<exists>ws. RgnPixels st rgn T bbox = Some ws \<and>
               (\<forall>w \<in> set ws. snd (snd w) = spec_tile_pixel T (fst w) (fst (snd w)))) \<and>
         (\<exists>ws. RectPixels st T bbox = Some ws \<and>
               (\<forall>w \<in> set ws. snd (snd w) = spec_tile_pixel T (fst w) (fst (snd w)))) \<and>
         call_stores st (RenderPatternInRgn rgn pp st) (rgn_stores st rgn pp) \<and>
         call_stores st (RenderPatternInRect bbox pp st) (rect_stores st bbox pp) \<and>
         (\<forall>w \<in> set (rgn_stores st rgn pp) \<union> set (rect_stores st bbox pp).
            \<exists>T'. pattern_tile (host st) pp = Some T' \<and>
                 0 < sint (tileW T') \<and> 0 < sint (tileH T') \<and>
                 snd (snd w) = spec_tile_pixel T' (fst w) (fst (snd w)))"
proof (intro conjI)
  show "call_stores st (RenderPatternInRgn rgn pp st) (rgn_stores st rgn pp)"
    by (rule RenderPatternInRgn_does)
  show "call_stores st (RenderPatternInRect bbox pp st) (rect_stores st bbox pp)"
    by (rule RenderPatternInRect_does)
  show "\<forall>w \<in> set (rgn_stores st rgn pp) \<union> set (rect_stores st bbox pp).
            \<exists>T'. pattern_tile (host st) pp = Some T' \<and>
                 0 < sint (tileW T') \<and> 0 < sint (tileH T') \<and>
                 snd (snd w) = spec_tile_pixel T' (fst w) (fst (snd w))"
    using rgn_stores_values [of _ st rgn pp] rect_stores_values [of _ st bbox pp]
      pattern_tile_dims [of "host st" pp]
    by (metis Un_iff)
  show "\<exists>tx. tile_coord x (tileW T) = Some tx \<and> sint tx = sint x mod sint (tileW T) \<and>
               0 \<le> sint tx \<and> sint tx < sint (tileW T)"
    using assms(1) by (simp add: tile_coord_pos sint_tile_coord)
  show "\<exists>ty. tile_coord y (tileH T) = Some ty \<and> sint ty = sint y mod sint (tileH T) \<and>
               0 \<le> sint ty \<and> sint ty < sint (tileH T)"
    using assms(2) by (simp add: tile_coord_pos sint_tile_coord)
  show "\<exists>ws. RgnPixels st rgn T bbox = Some ws \<and>
               (\<forall>w \<in> set ws. snd (snd w) = spec_tile_pixel T (fst w) (fst (snd w)))"
    unfolding RgnPixels_eq [OF assms]
    by (auto simp add: row_writes_def)
  show "\<exists>ws. RectPixels st T bbox = Some ws \<and>
               (\<forall>w \<in> set ws. snd (snd w) = spec_tile_pixel T (fst w) (fst (snd w)))"
    unfolding RectPixels_eq [OF assms]
    by (auto simp add: row_writes_def)
qed

theorem tiling_anchored_at_origin_witness:
  "0 < sint (tileW demo_tile) \<and> 0 < sint (tileH demo_tile) \<and>
   (\<exists>tx. tile_coord (- 3) (tileW demo_tile) = Some tx \<and>
      sint tx = sint (- 3 :: short) mod sint (tileW demo_tile) \<and>
      0 \<le> sint tx \<and> sint tx < sint (tileW demo_tile)) \<and>
   (\<exists>ty. tile_coord 6 (tileH demo_tile) = Some ty \<and>
      sint ty = sint (6 :: short) mod sint (tileH demo_tile) \<and>
      0 \<le> sint ty \<and> sint ty < sint (tileH demo_tile)) \<and>
   (\<exists>ws. RgnPixels demo 0x500 demo_tile demo_bbox = Some ws \<and>
      (\<forall>w \<in> set ws. snd (snd w) = spec_tile_pixel demo_tile (fst w) (fst (snd w)))) \<and>
   (\<exists>ws. RectPixels demo demo_tile demo_bbox = Some ws \<and>
      (\<forall>w \<in> set ws. snd (snd w) = spec_tile_pixel demo_tile (fst w) (fst (snd w))))"
proof -
  have w: "0 < sint (tileW demo_tile)" by (simp add: demo_tile_def)
  have h: "0 < sint (tileH demo_tile)" by (simp add: demo_tile_def)
  show ?thesis
    using w h tiling_anchored_at_origin [OF w h, of "- 3" 6 demo "0x500" demo_bbox]
    by blast
qed

section \<open>Palette entries to true colour\<close>

lemma pixel32_red:
  "(ucast (drop_bit 16 (pixel32_of cs)) :: 8 word) = ucast (drop_bit 8 (red (rgb cs)))"
  unfolding pixel32_of_def
  by (rule bit_word_eqI) (auto simp add: bit_simps dest: bit_imp_le_length)

lemma pixel32_green:
  "(ucast (drop_bit 8 (pixel32_of cs)) :: 8 word) = ucast (drop_bit 8 (green (rgb cs)))"
  unfolding pixel32_of_def
  by (rule bit_word_eqI) (auto simp add: bit_simps dest: bit_imp_le_length)

lemma pixel32_blue:
  "(ucast (pixel32_of cs) :: 8 word) = ucast (drop_bit 8 (blue (rgb cs)))"
  unfolding pixel32_of_def
  by (rule bit_word_eqI) (auto simp add: bit_simps dest: bit_imp_le_length)

lemma pixel32_top: "drop_bit 24 (pixel32_of cs) = 0"
  unfolding pixel32_of_def
  by (rule bit_word_eqI) (auto simp add: bit_simps dest: bit_imp_le_length)

lemma poke32_bytes:
  "poke32 m a v a = ucast (drop_bit 24 v)"
  "poke32 m a v (a + 1) = ucast (drop_bit 16 v)"
  "poke32 m a v (a + 2) = ucast (drop_bit 8 v)"
  "poke32 m a v (a + 3) = ucast v"
  by (simp_all add: poke32_def)

text \<open>
  Claim C2. The 32-bit value made of a palette entry has the high byte of the entry's
  red channel in bits 23 to 16, that of its green channel in bits 15 to 8, that of its
  blue channel in bits 7 to 0, and nothing above, so that its store at an address
  leaves there the bytes 0, red, green, blue; and every value the loops of either
  renderer store, so every value a call of either renderer stores, is made so, of an
  entry of the palette of the pattern's tile.
\<close>

theorem pixel32_packs_high_bytes:
  assumes "0 < sint (tileW T)" and "0 < sint (tileH T)"
  shows "(ucast (drop_bit 16 (pixel32_of cs)) :: 8 word) = ucast (drop_bit 8 (red (rgb cs))) \<and>
         (ucast (drop_bit 8 (pixel32_of cs)) :: 8 word) = ucast (drop_bit 8 (green (rgb cs))) \<and>
         (ucast (pixel32_of cs) :: 8 word) = ucast (drop_bit 8 (blue (rgb cs))) \<and>
         drop_bit 24 (pixel32_of cs) = 0 \<and>
         poke32 m a (pixel32_of cs) a = 0 \<and>
         poke32 m a (pixel32_of cs) (a + 1) = ucast (drop_bit 8 (red (rgb cs))) \<and>
         poke32 m a (pixel32_of cs) (a + 2) = ucast (drop_bit 8 (green (rgb cs))) \<and>
         poke32 m a (pixel32_of cs) (a + 3) = ucast (drop_bit 8 (blue (rgb cs))) \<and>
         (\<exists>ws. RgnPixels st rgn T bbox = Some ws \<and>
               (\<forall>w \<in> set ws. \<exists>i. snd (snd w) = pixel32_of (ctTable T i))) \<and>
         (\<exists>ws. RectPixels st T bbox = Some ws \<and>
               (\<forall>w \<in> set ws. \<exists>i. snd (snd w) = pixel32_of (ctTable T i))) \<and>
         call_stores st (RenderPatternInRgn rgn pp st) (rgn_stores st rgn pp) \<and>
         call_stores st (RenderPatternInRect bbox pp st) (rect_stores st bbox pp) \<and>
         (\<forall>w \<in> set (rgn_stores st rgn pp) \<union> set (rect_stores st bbox pp).
            \<exists>T' i. pattern_tile (host st) pp = Some T' \<and>
                 snd (snd w) = pixel32_of (ctTable T' i))"
proof (intro conjI)
  show "call_stores st (RenderPatternInRgn rgn pp st) (rgn_stores st rgn pp)"
    by (rule RenderPatternInRgn_does)
  show "call_stores st (RenderPatternInRect bbox pp st) (rect_stores st bbox pp)"
    by (rule RenderPatternInRect_does)
  show "\<forall>w \<in> set (rgn_stores st rgn pp) \<union> set (rect_stores st bbox pp).
            \<exists>T' i. pattern_tile (host st) pp = Some T' \<and>
                 snd (snd w) = pixel32_of (ctTable T' i)"
    using rgn_stores_values [of _ st rgn pp] rect_stores_values [of _ st bbox pp]
    unfolding spec_tile_pixel_def
    by (metis Un_iff)
  show "\<exists>ws. RgnPixels st rgn T bbox = Some ws \<and>
               (\<forall>w \<in> set ws. \<exists>i. snd (snd w) = pixel32_of (ctTable T i))"
    unfolding RgnPixels_eq [OF assms]
    by (auto simp add: row_writes_def spec_tile_pixel_def)
  show "\<exists>ws. RectPixels st T bbox = Some ws \<and>
               (\<forall>w \<in> set ws. \<exists>i. snd (snd w) = pixel32_of (ctTable T i))"
    unfolding RectPixels_eq [OF assms]
    by (auto simp add: row_writes_def spec_tile_pixel_def)
qed (simp_all add: pixel32_red pixel32_green pixel32_blue pixel32_top poke32_bytes)

theorem pixel32_packs_high_bytes_witness:
  "0 < sint (tileW demo_tile) \<and> 0 < sint (tileH demo_tile) \<and>
   (ucast (drop_bit 16 (pixel32_of red_entry)) :: 8 word) = 0xFF \<and>
   (ucast (drop_bit 8 (pixel32_of red_entry)) :: 8 word) = 0 \<and>
   (ucast (pixel32_of red_entry) :: 8 word) = 0 \<and>
   drop_bit 24 (pixel32_of red_entry) = 0 \<and>
   (\<exists>ws. RgnPixels demo 0x500 demo_tile demo_bbox = Some ws \<and>
      (\<forall>w \<in> set ws. \<exists>i. snd (snd w) = pixel32_of (ctTable demo_tile i))) \<and>
   (\<exists>ws. RectPixels demo demo_tile demo_bbox = Some ws \<and>
      (\<forall>w \<in> set ws. \<exists>i. snd (snd w) = pixel32_of (ctTable demo_tile i)))"
proof -
  have w: "0 < sint (tileW demo_tile)" by (simp add: demo_tile_def)
  have h: "0 < sint (tileH demo_tile)" by (simp add: demo_tile_def)
  have r: "(ucast (drop_bit 8 (red (rgb red_entry))) :: 8 word) = 0xFF"
    "(ucast (drop_bit 8 (green (rgb red_entry))) :: 8 word) = 0"
    "(ucast (drop_bit 8 (blue (rgb red_entry))) :: 8 word) = 0"
    by (simp_all add: red_entry_def)
  show ?thesis
    using w h r pixel32_packs_high_bytes [OF w h, of red_entry "\<lambda>a. 0" 0 demo "0x500" demo_bbox]
    by simp
qed

section \<open>Clipping, and the two clipping disciplines\<close>

text \<open>
  Claim C9. The left and top edges of the target area are raised to 0 when they are
  below it, the right and bottom edges are lowered to the cached width and height when
  they are beyond them, all as signed numbers; the rectangle form stores to exactly
  the points of the target rectangle that lie on the cached surface, the region form
  to those of them that the region's membership test accepts; so no store of either
  falls outside \<open>[0, gScreenHeight) \<times> [0, gScreenWidth)\<close>. For the calls as a whole:
  what a call of either renderer stores lies in that part of its target area, and a
  byte of the frame buffer that differs after the call is one of the four bytes of a
  pixel there.
\<close>

theorem clipped_to_screen:
  assumes "0 < sint (tileW T)" and "0 < sint (tileH T)"
  shows "sint (left (ClipToScreen st r)) = max 0 (sint (left r)) \<and>
         sint (top' (ClipToScreen st r)) = max 0 (sint (top' r)) \<and>
         sint (right (ClipToScreen st r)) = min (sint (right r)) (sint (gScreenWidth st)) \<and>
         sint (bottom (ClipToScreen st r)) = min (sint (bottom r)) (sint (gScreenHeight st)) \<and>
         RectPixels st T r \<noteq> None \<and> RgnPixels st rgn T r \<noteq> None \<and>
         written (RectPixels st T r) = screen_part st r \<and>
         written (RgnPixels st rgn T r) = {p \<in> screen_part st r. PtInRgn (host st) p rgn} \<and>
         (\<forall>p \<in> written (RectPixels st T r) \<union> written (RgnPixels st rgn T r).
            0 \<le> sint (fst p) \<and> sint (fst p) < sint (gScreenHeight st) \<and>
            0 \<le> sint (snd p) \<and> sint (snd p) < sint (gScreenWidth st)) \<and>
         call_stores st (RenderPatternInRect r pp st) (rect_stores st r pp) \<and>
         call_stores st (RenderPatternInRgn rgn pp st) (rgn_stores st rgn pp) \<and>
         coord ` set (rect_stores st r pp) \<subseteq> screen_part st r \<and>
         (\<forall>R. deref (rgns (host st)) rgn = Some R \<longrightarrow>
            coord ` set (rgn_stores st rgn pp)
              \<subseteq> {p \<in> screen_part st (rgnBBox R). PtInRgn (host st) p rgn}) \<and>
         (\<forall>st' a. RenderPatternInRect r pp st = Some st' \<and>
            mem (host st') a \<noteq> mem (host st) a
            \<longrightarrow> (\<exists>p \<in> screen_part st r. a \<in> touched st p)) \<and>
         (\<forall>st' a R. RenderPatternInRgn rgn pp st = Some st' \<and>
            deref (rgns (host st)) rgn = Some R \<and>
            mem (host st') a \<noteq> mem (host st) a
            \<longrightarrow> (\<exists>p \<in> {p \<in> screen_part st (rgnBBox R). PtInRgn (host st) p rgn}.
                   a \<in> touched st p))"
proof -
  have e: "call_stores st (RenderPatternInRect r pp st) (rect_stores st r pp)"
    "call_stores st (RenderPatternInRgn rgn pp st) (rgn_stores st rgn pp)"
    by (rule RenderPatternInRect_does, rule RenderPatternInRgn_does)
  have f: "coord ` set (rect_stores st r pp) \<subseteq> screen_part st r"
    by (rule coord_rect_stores)
  have g: "\<forall>R. deref (rgns (host st)) rgn = Some R \<longrightarrow>
            coord ` set (rgn_stores st rgn pp)
              \<subseteq> {p \<in> screen_part st (rgnBBox R). PtInRgn (host st) p rgn}"
    using coord_rgn_stores by blast
  have h: "\<forall>st' a. RenderPatternInRect r pp st = Some st' \<and>
            mem (host st') a \<noteq> mem (host st) a
            \<longrightarrow> (\<exists>p \<in> screen_part st r. a \<in> touched st p)"
    using Rect_mem_within by blast
  have i: "\<forall>st' a R. RenderPatternInRgn rgn pp st = Some st' \<and>
            deref (rgns (host st)) rgn = Some R \<and>
            mem (host st') a \<noteq> mem (host st) a
            \<longrightarrow> (\<exists>p \<in> {p \<in> screen_part st (rgnBBox R). PtInRgn (host st) p rgn}.
                   a \<in> touched st p)"
    using Rgn_mem_within by blast
  have a: "written (RectPixels st T r) = screen_part st r"
    by (rule written_RectPixels [OF assms])
  have b: "written (RgnPixels st rgn T r) = {p \<in> screen_part st r. PtInRgn (host st) p rgn}"
    by (rule written_RgnPixels [OF assms])
  have c: "\<forall>p \<in> screen_part st r.
            0 \<le> sint (fst p) \<and> sint (fst p) < sint (gScreenHeight st) \<and>
            0 \<le> sint (snd p) \<and> sint (snd p) < sint (gScreenWidth st)"
    by (auto simp add: screen_part_def)
  have d: "RectPixels st T r \<noteq> None" "RgnPixels st rgn T r \<noteq> None"
    by (simp_all add: RectPixels_eq [OF assms] RgnPixels_eq [OF assms])
  have j: "sint (left (ClipToScreen st r)) = max 0 (sint (left r)) \<and>
         sint (top' (ClipToScreen st r)) = max 0 (sint (top' r)) \<and>
         sint (right (ClipToScreen st r)) = min (sint (right r)) (sint (gScreenWidth st)) \<and>
         sint (bottom (ClipToScreen st r)) = min (sint (bottom r)) (sint (gScreenHeight st))"
    by (simp add: clip_edges)
  have k: "\<forall>p \<in> written (RectPixels st T r) \<union> written (RgnPixels st rgn T r).
            0 \<le> sint (fst p) \<and> sint (fst p) < sint (gScreenHeight st) \<and>
            0 \<le> sint (snd p) \<and> sint (snd p) < sint (gScreenWidth st)"
    using c by (auto simp add: a b)
  show ?thesis using a b d e f g h i j k by blast
qed

theorem clipped_to_screen_witness:
  "0 < sint (tileW demo_tile) \<and> 0 < sint (tileH demo_tile) \<and>
   sint (left (ClipToScreen demo \<lparr>top' = - 3, left = - 2, bottom = 30, right = 7\<rparr>)) = 0 \<and>
   sint (top' (ClipToScreen demo \<lparr>top' = - 3, left = - 2, bottom = 30, right = 7\<rparr>)) = 0 \<and>
   sint (right (ClipToScreen demo \<lparr>top' = - 3, left = - 2, bottom = 30, right = 7\<rparr>)) = 7 \<and>
   sint (bottom (ClipToScreen demo \<lparr>top' = - 3, left = - 2, bottom = 30, right = 7\<rparr>)) = 20 \<and>
   written (RectPixels demo demo_tile \<lparr>top' = - 3, left = - 2, bottom = 30, right = 7\<rparr>)
     = screen_part demo \<lparr>top' = - 3, left = - 2, bottom = 30, right = 7\<rparr> \<and>
   (19, 6) \<in> written (RectPixels demo demo_tile \<lparr>top' = - 3, left = - 2, bottom = 30, right = 7\<rparr>) \<and>
   (20, 6) \<notin> written (RectPixels demo demo_tile \<lparr>top' = - 3, left = - 2, bottom = 30, right = 7\<rparr>)"
proof -
  let ?r = "\<lparr>top' = - 3, left = - 2, bottom = 30, right = 7\<rparr> :: Rect"
  have w: "0 < sint (tileW demo_tile)" by (simp add: demo_tile_def)
  have h: "0 < sint (tileH demo_tile)" by (simp add: demo_tile_def)
  have m: "max 0 (sint (left ?r)) = 0" "max 0 (sint (top' ?r)) = 0"
    "min (sint (right ?r)) (sint (gScreenWidth demo)) = 7"
    "min (sint (bottom ?r)) (sint (gScreenHeight demo)) = 20"
    by (simp_all add: demo_def)
  have i: "(19, 6) \<in> screen_part demo ?r" "(20, 6) \<notin> screen_part demo ?r"
    by (simp_all add: screen_part_def demo_def)
  show ?thesis
    using w h m i clipped_to_screen [OF w h, of demo ?r "0x500"]
    by simp
qed

text \<open>
  Claim C6, amended. The points the region form stores to are a subset of those the
  rectangle form stores to over the region's bounding box (and the stores themselves
  are among the rectangle form's), and are exactly the points of the clipped bounding
  box that pass the membership test. The subset need not be strict: it is the whole
  set when every point of the clipped box passes the test. For the calls as a whole:
  what a call of the region form stores is among what a call of the rectangle form
  stores for the region's bounding box and the same pattern, at exactly the points of
  the latter that pass the test.
\<close>

theorem region_form_within_rect_form:
  assumes "0 < sint (tileW T)" and "0 < sint (tileH T)"
  shows "written (RgnPixels st rgn T bbox) \<subseteq> written (RectPixels st T bbox) \<and>
         written (RectPixels st T bbox) = screen_part st bbox \<and>
         written (RgnPixels st rgn T bbox)
           = {p \<in> screen_part st bbox. PtInRgn (host st) p rgn} \<and>
         (\<exists>wr wq. RgnPixels st rgn T bbox = Some wr \<and> RectPixels st T bbox = Some wq \<and>
            set wr \<subseteq> set wq) \<and>
         (\<forall>R. deref (rgns (host st)) rgn = Some R \<longrightarrow>
            call_stores st (RenderPatternInRgn rgn pp st) (rgn_stores st rgn pp) \<and>
            call_stores st (RenderPatternInRect (rgnBBox R) pp st)
              (rect_stores st (rgnBBox R) pp) \<and>
            set (rgn_stores st rgn pp) \<subseteq> set (rect_stores st (rgnBBox R) pp) \<and>
            coord ` set (rgn_stores st rgn pp)
              = {p \<in> coord ` set (rect_stores st (rgnBBox R) pp). PtInRgn (host st) p rgn})"
proof -
  have a: "written (RgnPixels st rgn T bbox) \<subseteq> written (RectPixels st T bbox) \<and>
         written (RectPixels st T bbox) = screen_part st bbox \<and>
         written (RgnPixels st rgn T bbox)
           = {p \<in> screen_part st bbox. PtInRgn (host st) p rgn} \<and>
         (\<exists>wr wq. RgnPixels st rgn T bbox = Some wr \<and> RectPixels st T bbox = Some wq \<and>
            set wr \<subseteq> set wq)"
    using written_RectPixels [OF assms, of st bbox] written_RgnPixels [OF assms, of st rgn bbox]
      set_RgnPixels_subset [OF assms, of st rgn bbox]
    by auto
  have b: "\<forall>R. deref (rgns (host st)) rgn = Some R \<longrightarrow>
            call_stores st (RenderPatternInRgn rgn pp st) (rgn_stores st rgn pp) \<and>
            call_stores st (RenderPatternInRect (rgnBBox R) pp st)
              (rect_stores st (rgnBBox R) pp) \<and>
            set (rgn_stores st rgn pp) \<subseteq> set (rect_stores st (rgnBBox R) pp) \<and>
            coord ` set (rgn_stores st rgn pp)
              = {p \<in> coord ` set (rect_stores st (rgnBBox R) pp). PtInRgn (host st) p rgn}"
    using rgn_stores_within_rect_stores [of st rgn _ pp] RenderPatternInRgn_does [of st rgn pp]
      RenderPatternInRect_does [of st _ pp]
    by blast
  show ?thesis using a b by blast
qed

theorem region_form_within_rect_form_witness:
  "0 < sint (tileW demo_tile) \<and> 0 < sint (tileH demo_tile) \<and>
   written (RgnPixels demo 0x580 demo_tile demo_bbox)
     \<subseteq> written (RectPixels demo demo_tile demo_bbox) \<and>
   written (RgnPixels demo 0x580 demo_tile demo_bbox) = {} \<and>
   (5, 5) \<in> written (RectPixels demo demo_tile demo_bbox)"
proof -
  have w: "0 < sint (tileW demo_tile)" by (simp add: demo_tile_def)
  have h: "0 < sint (tileH demo_tile)" by (simp add: demo_tile_def)
  have e: "{p \<in> screen_part demo demo_bbox. PtInRgn (host demo) p 0x580} = {}"
    by (simp add: demo_def demo_host_def)
  have i: "(5, 5) \<in> screen_part demo demo_bbox"
    by (simp add: screen_part_def demo_def demo_bbox_def)
  show ?thesis
    using w h e i region_form_within_rect_form [OF w h, of demo "0x580" demo_bbox]
    by simp
qed

text \<open>
  The claim as the specification words it, with a strict subset, fails for the square
  region of the small desktop and its pattern: every point of its bounding box is in
  it, both calls return and store to the same sixteen points, and the one set is not
  a strict subset of the other; the same for the loops alone.
\<close>

theorem region_form_counterexample:
  "pattern_tile (host demo) 0x100 = Some demo_tile \<and>
   deref (rgns (host demo)) 0x500 = Some \<lparr>rgnBBox = demo_bbox\<rparr> \<and>
   RenderPatternInRgn 0x500 0x100 demo \<noteq> None \<and>
   RenderPatternInRect demo_bbox 0x100 demo \<noteq> None \<and>
   (5, 5) \<in> coord ` set (rgn_stores demo 0x500 0x100) \<and>
   \<not> (coord ` set (rgn_stores demo 0x500 0x100)
        \<subset> coord ` set (rect_stores demo demo_bbox 0x100)) \<and>
   RgnPixels demo 0x500 demo_tile demo_bbox \<noteq> None \<and>
   RectPixels demo demo_tile demo_bbox \<noteq> None \<and>
   (5, 5) \<in> written (RgnPixels demo 0x500 demo_tile demo_bbox) \<and>
   \<not> (written (RgnPixels demo 0x500 demo_tile demo_bbox)
        \<subset> written (RectPixels demo demo_tile demo_bbox))"
proof -
  have e: "{p \<in> screen_part demo demo_bbox. PtInRgn (host demo) p 0x500}
             = screen_part demo demo_bbox"
    by (auto simp add: screen_part_def demo_def demo_host_def demo_bbox_def)
  have i: "(5, 5) \<in> screen_part demo demo_bbox"
    by (simp add: screen_part_def demo_def demo_bbox_def)
  have n: "RgnPixels demo 0x500 demo_tile demo_bbox \<noteq> None"
    "RectPixels demo demo_tile demo_bbox \<noteq> None"
    by (simp_all add: RgnPixels_eq [OF demo_tile_dims] RectPixels_eq [OF demo_tile_dims])
  have w: "written (RgnPixels demo 0x500 demo_tile demo_bbox) = screen_part demo demo_bbox"
    "written (RectPixels demo demo_tile demo_bbox) = screen_part demo demo_bbox"
    using e
    by (simp_all add: written_RgnPixels [OF demo_tile_dims] written_RectPixels [OF demo_tile_dims])
  have s: "coord ` set (rgn_stores demo 0x500 0x100) = screen_part demo demo_bbox"
    "coord ` set (rect_stores demo demo_bbox 0x100) = screen_part demo demo_bbox"
    using n w
    by (simp_all add: rgn_stores_def rect_stores_def demo_pattern_tile demo_region written_stores)
  have r: "RenderPatternInRgn 0x500 0x100 demo \<noteq> None"
    using RenderPatternInRgn_total [of demo "0x500" "0x100"] by (simp add: demo_region)
  show ?thesis
    using i r n by (simp add: s w demo_pattern_tile demo_region RenderPatternInRect_total)
qed

section \<open>The renderers as a whole\<close>

lemma no_render_in_plots [simp]: "filter is_render (map (\<lambda>(y, x, v). Plot y x v) ws) = []"
  by (induction ws) auto

lemma RenderPatternInRgn_renders:
  "RenderPatternInRgn rgn pp st = Some st' \<Longrightarrow>
     filter is_render (trace st') = filter is_render (trace st)"
  by (auto simp add: RenderPatternInRgn_def Let_def store_pixels_def
      split: option.splits if_splits)

lemma RenderPatternInRect_renders:
  "RenderPatternInRect r pp st = Some st' \<Longrightarrow>
     filter is_render (trace st') = filter is_render (trace st)"
  by (auto simp add: RenderPatternInRect_def Let_def store_pixels_def
      split: option.splits if_splits)

lemma tile_coord_None: "tile_coord x w = None \<longleftrightarrow> w = 0"
  by (auto simp add: tile_coord_def c_rem_def signed_eq_0_iff Let_def split: option.splits)

lemma restore_two:
  "m \<noteq> d \<Longrightarrow>
   HSetState d (HGetState (HLock m tb) d) (HSetState m (HGetState tb m) (HLock d (HLock m tb)))
     = tb"
  by (simp add: HSetState_def HGetState_def HLock_def fun_upd_twist)

lemma Rect_writes_need_tile:
  assumes "RenderPatternInRect r pp st = Some st'"
    and "trace st' \<noteq> trace st \<or> mem (host st') \<noteq> mem (host st)"
  shows "\<exists>pat pm. deref (pixpats (host st)) pp = Some pat \<and>
           deref (pixmaps (host st)) (patMap pat) = Some pm \<and>
           0 < sint (right (bounds pm) - left (bounds pm)) \<and>
           0 < sint (bottom (bounds pm) - top' (bounds pm))"
  using assms
  by (auto simp add: RenderPatternInRect_def Let_def HSetState_def HLock_def
      split: option.splits if_splits)

lemma Rgn_writes_need_tile:
  assumes "RenderPatternInRgn rgn pp st = Some st'"
    and "trace st' \<noteq> trace st \<or> mem (host st') \<noteq> mem (host st)"
  shows "\<exists>pat pm. deref (pixpats (host st)) pp = Some pat \<and>
           deref (pixmaps (host st)) (patMap pat) = Some pm \<and>
           0 < sint (right (bounds pm) - left (bounds pm)) \<and>
           0 < sint (bottom (bounds pm) - top' (bounds pm))"
  using assms
  by (auto simp add: RenderPatternInRgn_def Let_def HSetState_def HLock_def
      split: option.splits if_splits)

text \<open>
  Claim C10. When the bounds of a pattern's pixel map give a tile width or a tile
  height that is not positive, both renderers return after the two \<open>HSetState\<close> calls
  that put back the flag bytes saved for the pixel map and the pixel data, with the
  frame buffer and the trace of stores as they were (and the whole host as it was,
  when the two handles differ). More generally a renderer that returns having stored
  anything had a pixel map of positive width and height. The tile coordinate is
  undefined for a zero dimension only, and no run of a renderer ends in that: the
  rectangle form always returns, the region form whenever its region handle is good.
\<close>

theorem nonpositive_tile_skipped:
  assumes "deref (pixpats (host st)) pp = Some pat"
    and "patType pat = 1"
    and "deref (pixmaps (host st)) (patMap pat) = Some pm"
    and "deref (datas (host st)) (patData pat) = Some pd"
    and "sint (right (bounds pm) - left (bounds pm)) \<le> 0 \<or>
         sint (bottom (bounds pm) - top' (bounds pm)) \<le> 0"
    and "back = HSetState (patData pat) (HGetState (HLock (patMap pat) (host st)) (patData pat))
                  (HSetState (patMap pat) (HGetState (host st) (patMap pat))
                     (HLock (patData pat) (HLock (patMap pat) (host st))))"
  shows "RenderPatternInRgn rgn pp st = Some (st\<lparr>host := back\<rparr>) \<and>
         RenderPatternInRect r pp st = Some (st\<lparr>host := back\<rparr>) \<and>
         mem back = mem (host st) \<and>
         (patMap pat \<noteq> patData pat \<longrightarrow> back = host st) \<and>
         (\<forall>r' pp' s s'. RenderPatternInRect r' pp' s = Some s' \<and>
             (trace s' \<noteq> trace s \<or> mem (host s') \<noteq> mem (host s))
             \<longrightarrow> (\<exists>pat' pm'. deref (pixpats (host s)) pp' = Some pat' \<and>
                    deref (pixmaps (host s)) (patMap pat') = Some pm' \<and>
                    0 < sint (right (bounds pm') - left (bounds pm')) \<and>
                    0 < sint (bottom (bounds pm') - top' (bounds pm')))) \<and>
         (\<forall>rgn' pp' s s'. RenderPatternInRgn rgn' pp' s = Some s' \<and>
             (trace s' \<noteq> trace s \<or> mem (host s') \<noteq> mem (host s))
             \<longrightarrow> (\<exists>pat' pm'. deref (pixpats (host s)) pp' = Some pat' \<and>
                    deref (pixmaps (host s)) (patMap pat') = Some pm' \<and>
                    0 < sint (right (bounds pm') - left (bounds pm')) \<and>
                    0 < sint (bottom (bounds pm') - top' (bounds pm')))) \<and>
         (\<forall>x w. tile_coord x w = None \<longleftrightarrow> w = 0) \<and>
         (\<forall>r' pp' s. RenderPatternInRect r' pp' s \<noteq> None) \<and>
         (\<forall>rgn' pp' s. deref (rgns (host s)) rgn' \<noteq> None
             \<longrightarrow> RenderPatternInRgn rgn' pp' s \<noteq> None)"
proof (intro conjI)
  show "RenderPatternInRgn rgn pp st = Some (st\<lparr>host := back\<rparr>)"
    using assms by (auto simp add: RenderPatternInRgn_def Let_def)
  show "RenderPatternInRect r pp st = Some (st\<lparr>host := back\<rparr>)"
    using assms by (auto simp add: RenderPatternInRect_def Let_def)
  show "mem back = mem (host st)"
    using assms(6) by (simp add: HSetState_def HLock_def)
  show "patMap pat \<noteq> patData pat \<longrightarrow> back = host st"
    using assms(6) by (simp add: restore_two)
  show "\<forall>r' pp' s s'. RenderPatternInRect r' pp' s = Some s' \<and>
             (trace s' \<noteq> trace s \<or> mem (host s') \<noteq> mem (host s))
             \<longrightarrow> (\<exists>pat' pm'. deref (pixpats (host s)) pp' = Some pat' \<and>
                    deref (pixmaps (host s)) (patMap pat') = Some pm' \<and>
                    0 < sint (right (bounds pm') - left (bounds pm')) \<and>
                    0 < sint (bottom (bounds pm') - top' (bounds pm')))"
    using Rect_writes_need_tile by blast
  show "\<forall>rgn' pp' s s'. RenderPatternInRgn rgn' pp' s = Some s' \<and>
             (trace s' \<noteq> trace s \<or> mem (host s') \<noteq> mem (host s))
             \<longrightarrow> (\<exists>pat' pm'. deref (pixpats (host s)) pp' = Some pat' \<and>
                    deref (pixmaps (host s)) (patMap pat') = Some pm' \<and>
                    0 < sint (right (bounds pm') - left (bounds pm')) \<and>
                    0 < sint (bottom (bounds pm') - top' (bounds pm')))"
    using Rgn_writes_need_tile by blast
  show "\<forall>x w. tile_coord x w = None \<longleftrightarrow> w = 0"
    by (simp add: tile_coord_None)
  show "\<forall>r' pp' s. RenderPatternInRect r' pp' s \<noteq> None"
    by (simp add: RenderPatternInRect_total)
  show "\<forall>rgn' pp' s. deref (rgns (host s)) rgn' \<noteq> None
             \<longrightarrow> RenderPatternInRgn rgn' pp' s \<noteq> None"
    by (simp add: RenderPatternInRgn_total)
qed

theorem nonpositive_tile_skipped_witness:
  "deref (pixpats (host flat)) 0x100 = Some \<lparr>patType = 1, patMap = 0x200, patData = 0x300\<rparr> \<and>
   deref (pixmaps (host flat)) 0x200
     = Some (tile_map\<lparr>bounds := \<lparr>top' = 0, left = 4, bottom = 4, right = 4\<rparr>\<rparr>) \<and>
   deref (datas (host flat)) 0x300 = Some (\<lambda>i. 0) \<and>
   sint (4 - 4 :: short) \<le> 0 \<and>
   RenderPatternInRgn 0x500 0x100 flat = Some flat \<and>
   RenderPatternInRect demo_bbox 0x100 flat = Some flat"
proof -
  let ?pat = "\<lparr>patType = 1, patMap = 0x200, patData = 0x300\<rparr>"
  let ?pm = "tile_map\<lparr>bounds := \<lparr>top' = 0, left = 4, bottom = 4, right = 4\<rparr>\<rparr>"
  have a: "deref (pixpats (host flat)) 0x100 = Some ?pat"
    by (simp add: flat_def flat_host_def demo_host_def deref_def)
  have b: "patType ?pat = 1" by simp
  have c: "deref (pixmaps (host flat)) (patMap ?pat) = Some ?pm"
    by (simp add: flat_def flat_host_def demo_host_def deref_def)
  have d: "deref (datas (host flat)) (patData ?pat) = Some (\<lambda>i. 0)"
    by (simp add: flat_def flat_host_def demo_host_def deref_def)
  have e: "sint (right (bounds ?pm) - left (bounds ?pm)) \<le> 0 \<or>
           sint (bottom (bounds ?pm) - top' (bounds ?pm)) \<le> 0"
    by simp
  have n: "patMap ?pat \<noteq> patData ?pat" by simp
  show ?thesis
    using a c d n nonpositive_tile_skipped [OF a b c d e refl, of "0x500" demo_bbox]
    by simp
qed

text \<open>
  Claim C3. A pattern's pixel map and its pixel data are two blocks of the host's
  memory, the one behind a \<^verbatim>\<open>PixMapHandle\<close>, the other behind a \<^verbatim>\<open>Handle\<close>, so the
  two handles differ. For every such pattern, and every pattern that fails a check
  before a lock is taken, every return of either renderer, the early ones after the
  locks included, leaves the flag byte (lock and purgeable state) of every handle as
  it was immediately before the call. The rectangle form always returns, the region
  form whenever its region handle is good.
\<close>

theorem lock_states_restored:
  assumes "\<forall>pat. deref (pixpats (host st)) pp = Some pat \<longrightarrow> patMap pat \<noteq> patData pat"
  shows "(\<forall>st'. RenderPatternInRgn rgn pp st = Some st'
            \<longrightarrow> hstate (host st') = hstate (host st)) \<and>
         (deref (rgns (host st)) rgn \<noteq> None \<longrightarrow> RenderPatternInRgn rgn pp st \<noteq> None) \<and>
         (\<exists>st'. RenderPatternInRect r pp st = Some st' \<and> hstate (host st') = hstate (host st))"
proof (intro conjI)
  show "\<forall>st'. RenderPatternInRgn rgn pp st = Some st'
          \<longrightarrow> hstate (host st') = hstate (host st)"
    using assms
    apply (simp add: RenderPatternInRgn_def Let_def split: option.splits if_splits)
    apply (auto simp add: HSetState_def HGetState_def HLock_def fun_eq_iff store_pixels_def)
    done
  show "deref (rgns (host st)) rgn \<noteq> None \<longrightarrow> RenderPatternInRgn rgn pp st \<noteq> None"
    by (simp add: RenderPatternInRgn_total)
  obtain st' where s: "RenderPatternInRect r pp st = Some st'"
    using RenderPatternInRect_total [of r pp st] by auto
  then have "hstate (host st') = hstate (host st)"
    using assms
    apply (simp add: RenderPatternInRect_def Let_def split: option.splits if_splits)
    apply (auto simp add: HSetState_def HGetState_def HLock_def fun_eq_iff store_pixels_def)
    done
  then show "\<exists>st'. RenderPatternInRect r pp st = Some st' \<and>
               hstate (host st') = hstate (host st)"
    using s by simp
qed

theorem lock_states_restored_witness:
  "deref (pixpats (host demo)) 0x100 = Some \<lparr>patType = 1, patMap = 0x200, patData = 0x300\<rparr> \<and>
   (0x200 :: addr) \<noteq> 0x300 \<and>
   (\<exists>st'. RenderPatternInRgn 0x500 0x100 demo = Some st' \<and>
      hstate (host st') = hstate (host demo)) \<and>
   (\<exists>st'. RenderPatternInRect demo_bbox 0x100 demo = Some st' \<and>
      hstate (host st') = hstate (host demo))"
proof -
  have a: "deref (pixpats (host demo)) 0x100
             = Some \<lparr>patType = 1, patMap = 0x200, patData = 0x300\<rparr>"
    by (simp add: demo_def demo_host_def deref_def)
  then have h: "\<forall>pat. deref (pixpats (host demo)) 0x100 = Some pat
                  \<longrightarrow> patMap pat \<noteq> patData pat"
    by auto
  have r: "deref (rgns (host demo)) 0x500 \<noteq> None"
    by (simp add: demo_def demo_host_def deref_def)
  show ?thesis
    using a r lock_states_restored [OF h, of "0x500" demo_bbox]
    by auto
qed

section \<open>The surface info cache\<close>

lemma rowbytes_mask: "uint ((scast (w::short) :: 32 word) AND 0x3FFF) = uint w mod 2 ^ 14"
proof -
  have m: "(0x3FFF :: 32 word) = mask 14" by (simp add: mask_eq_exp_minus_1)
  have "(scast w :: 32 word) AND mask 14 = ucast (take_bit 14 w)"
    by (rule bit_word_eqI) (auto simp add: bit_simps)
  moreover have "uint (ucast (take_bit 14 w) :: 32 word) = uint w mod 2 ^ 14"
  proof -
    have a: "uint (take_bit 14 w) = take_bit 14 (uint w)" by (rule unsigned_take_bit_eq)
    have "uint (ucast (take_bit 14 w) :: 32 word) = take_bit 32 (take_bit 14 (uint w))"
      unfolding unsigned_ucast_eq a by simp
    also have "\<dots> = take_bit 14 (uint w)" by simp
    finally show ?thesis by (simp add: take_bit_eq_mod)
  qed
  ultimately show ?thesis unfolding m by simp
qed

lemma EnsureScreenInfo_ready: "gScreenReady st \<noteq> 0 \<Longrightarrow> EnsureScreenInfo st = (True, st)"
  by (simp add: EnsureScreenInfo_def)

lemma EnsureScreenInfo_keeps:
  "host (snd (EnsureScreenInfo st)) = host st"
  "trace (snd (EnsureScreenInfo st)) = trace st"
  "gInPatch (snd (EnsureScreenInfo st)) = gInPatch st"
  by (auto simp add: EnsureScreenInfo_def split: option.splits)

lemma EnsureScreenInfo_observe:
  "fst (EnsureScreenInfo (observe e st)) = fst (EnsureScreenInfo st)"
  by (auto simp add: EnsureScreenInfo_def observe_def split: option.splits)

lemma EnsureScreenInfo_fails:
  "\<not> fst (EnsureScreenInfo st) \<Longrightarrow> EnsureScreenInfo st = (False, st) \<and> gScreenReady st = 0"
  by (auto simp add: EnsureScreenInfo_def split: option.splits if_splits)

lemma EnsureScreenInfo_cold:
  "gScreenReady st = 0 \<Longrightarrow>
   fst (EnsureScreenInfo (st\<lparr>host := tb\<rparr>)) \<longleftrightarrow>
     (\<exists>dev pm. deref (gdevices tb) (GetMainDevice tb) = Some dev \<and>
        deref (pixmaps tb) (gdPMap dev) = Some pm \<and> pixelSize pm = 32)"
  by (auto simp add: EnsureScreenInfo_def split: option.splits if_splits)

lemma cache_simps [simp]:
  "cache (observe e st) = cache st"
  "cache (st\<lparr>host := tb\<rparr>) = cache st"
  "cache (st\<lparr>gInPatch := g\<rparr>) = cache st"
  "cache (st\<lparr>trace := tr\<rparr>) = cache st"
  by (simp_all add: cache_def observe_def)

lemma cache_Rgn: "RenderPatternInRgn rgn pp st = Some st' \<Longrightarrow> cache st' = cache st"
  by (auto simp add: RenderPatternInRgn_def Let_def store_pixels_def cache_def
      split: option.splits if_splits)

lemma cache_Rect: "RenderPatternInRect r pp st = Some st' \<Longrightarrow> cache st' = cache st"
  by (auto simp add: RenderPatternInRect_def Let_def store_pixels_def cache_def
      split: option.splits if_splits)

lemma cache_FillCRgn_fix:
  "gScreenReady st \<noteq> 0 \<Longrightarrow> FillCRgn_fix rgn pp st = Some st' \<Longrightarrow> cache st' = cache st"
  by (auto simp add: FillCRgn_fix_def FillCRgn_guard_def EnsureScreenInfo_ready case_prod_beta
      dest!: cache_Rgn split: if_splits)

lemma cache_EraseRect_fix:
  "gScreenReady st \<noteq> 0 \<Longrightarrow> EraseRect_fix rp st = Some st' \<Longrightarrow> cache st' = cache st"
  by (auto simp add: EraseRect_fix_def EraseRect_guard_def EnsureScreenInfo_ready case_prod_beta
      dest!: cache_Rect split: if_splits option.splits)

text \<open>
  Once the cache is ready, no run of an original and no intercepted call changes it.
\<close>

lemma cache_stable:
  "(gScreenReady st \<noteq> 0 \<longrightarrow> (\<forall>st'. run_old old st = Some st' \<longrightarrow> cache st' = cache st))"
  "(gScreenReady st2 \<noteq> 0 \<longrightarrow>
      (\<forall>st'. PatchedFillCRgn old2 rgn pp st2 = Some st' \<longrightarrow> cache st' = cache st2))"
  "(gScreenReady st3 \<noteq> 0 \<longrightarrow>
      (\<forall>st'. PatchedEraseRect old3 r st3 = Some st' \<longrightarrow> cache st' = cache st3))"
proof (induction old st and old2 rgn pp st2 and old3 r st3
    rule: run_old_PatchedFillCRgn_PatchedEraseRect.induct)
  case (1 st)
  then show ?case by simp
next
  case (2 f k st)
  then show ?case by simp
next
  case (3 rgn pp inner k st)
  show ?case
  proof (intro impI allI)
    fix st' assume g: "gScreenReady st \<noteq> 0"
      and r: "run_old (TrapFillCRgn rgn pp inner k) st = Some st'"
    then obtain s1 where s1: "PatchedFillCRgn inner rgn pp st = Some s1" "run_old k s1 = Some st'"
      by (auto split: option.splits)
    have c1: "cache s1 = cache st" using 3(1) g s1(1) by blast
    then have "gScreenReady s1 \<noteq> 0" using g by (simp add: cache_def)
    then have "cache st' = cache s1" using 3(2) s1 by blast
    then show "cache st' = cache st" using c1 by simp
  qed
next
  case (4 r inner k st)
  show ?case
  proof (intro impI allI)
    fix st' assume g: "gScreenReady st \<noteq> 0"
      and r: "run_old (TrapEraseRect r inner k) st = Some st'"
    then obtain s1 where s1: "PatchedEraseRect inner r st = Some s1" "run_old k s1 = Some st'"
      by (auto split: option.splits)
    have c1: "cache s1 = cache st" using 4(1) g s1(1) by blast
    then have "gScreenReady s1 \<noteq> 0" using g by (simp add: cache_def)
    then have "cache st' = cache s1" using 4(2) s1 by blast
    then show "cache st' = cache st" using c1 by simp
  qed
next
  case (5 old rgn pp st)
  show ?case
  proof (intro impI allI)
    fix st' assume g: "gScreenReady st \<noteq> 0"
      and r: "PatchedFillCRgn old rgn pp st = Some st'"
    show "cache st' = cache st"
    proof (cases "gInPatch st \<noteq> 0")
      case True
      then show ?thesis using 5(1) g r by simp
    next
      case False
      then obtain s1 s2 where s:
        "run_old old (observe (OrigFillCRgn rgn pp) (st\<lparr>gInPatch := 1\<rparr>)) = Some s1"
        "FillCRgn_fix rgn pp s1 = Some s2" "st' = s2\<lparr>gInPatch := 0\<rparr>"
        using r by (auto split: option.splits)
      have c1: "cache s1 = cache st" using 5(2) False g s(1) by simp
      then have "gScreenReady s1 \<noteq> 0" using g by (simp add: cache_def)
      then have "cache s2 = cache s1" using s(2) by (rule cache_FillCRgn_fix)
      then show ?thesis using c1 s(3) by simp
    qed
  qed
next
  case (6 old r st)
  show ?case
  proof (intro impI allI)
    fix st' assume g: "gScreenReady st \<noteq> 0"
      and r: "PatchedEraseRect old r st = Some st'"
    show "cache st' = cache st"
    proof (cases "gInPatch st \<noteq> 0")
      case True
      then show ?thesis using 6(1) g r by simp
    next
      case False
      then obtain s1 s2 where s:
        "run_old old (observe (OrigEraseRect r) (st\<lparr>gInPatch := 1\<rparr>)) = Some s1"
        "EraseRect_fix r s1 = Some s2" "st' = s2\<lparr>gInPatch := 0\<rparr>"
        using r by (auto split: option.splits)
      have c1: "cache s1 = cache st" using 6(2) False g s(1) by simp
      then have "gScreenReady s1 \<noteq> 0" using g by (simp add: cache_def)
      then have "cache s2 = cache s1" using s(2) by (rule cache_EraseRect_fix)
      then show ?thesis using c1 s(3) by simp
    qed
  qed
qed

text \<open>
  Claim C8. On its first successful call (the cache not ready, the main device and its
  pixel map there, 32 bits a pixel) \<open>EnsureScreenInfo\<close> answers true and leaves in the
  cache the base address, the low 14 bits of the row stride, and the width and height
  as the differences of the device's bounds, with the ready flag set. From then on a
  call answers true and changes nothing, whatever the host, the trace and the
  recursion flag have become, so that it does not look at the device any more; and
  the intercepted calls that follow leave the cache as it is.
\<close>

theorem EnsureScreenInfo_first_success:
  assumes "gScreenReady st = 0"
    and "deref (gdevices (host st)) (GetMainDevice (host st)) = Some dev"
    and "deref (pixmaps (host st)) (gdPMap dev) = Some pm"
    and "pixelSize pm = 32"
  shows "\<exists>st'. EnsureScreenInfo st = (True, st') \<and>
           gScreenBase st' = baseAddr pm \<and>
           uint (gScreenRowBytes st') = uint (rowBytes pm) mod 2 ^ 14 \<and>
           gScreenWidth st' = right (bounds pm) - left (bounds pm) \<and>
           gScreenHeight st' = bottom (bounds pm) - top' (bounds pm) \<and>
           gScreenReady st' = 1 \<and>
           (\<forall>tb tr g. EnsureScreenInfo (st'\<lparr>host := tb, trace := tr, gInPatch := g\<rparr>)
                      = (True, st'\<lparr>host := tb, trace := tr, gInPatch := g\<rparr>)) \<and>
           (\<forall>old rgn pp s s'. cache s = cache st' \<and> PatchedFillCRgn old rgn pp s = Some s'
                      \<longrightarrow> cache s' = cache st') \<and>
           (\<forall>old r s s'. cache s = cache st' \<and> PatchedEraseRect old r s = Some s'
                      \<longrightarrow> cache s' = cache st')"
proof -
  obtain st' where e: "EnsureScreenInfo st = (True, st')"
    and f: "gScreenBase st' = baseAddr pm"
      "uint (gScreenRowBytes st') = uint (rowBytes pm) mod 2 ^ 14"
      "gScreenWidth st' = right (bounds pm) - left (bounds pm)"
      "gScreenHeight st' = bottom (bounds pm) - top' (bounds pm)"
      "gScreenReady st' = 1"
    using assms by (simp add: EnsureScreenInfo_def rowbytes_mask)
  have r: "\<forall>tb tr g. EnsureScreenInfo (st'\<lparr>host := tb, trace := tr, gInPatch := g\<rparr>)
                      = (True, st'\<lparr>host := tb, trace := tr, gInPatch := g\<rparr>)"
    using f(5) by (simp add: EnsureScreenInfo_def)
  have n: "\<And>s. cache s = cache st' \<Longrightarrow> gScreenReady s \<noteq> 0"
    using f(5) by (simp add: cache_def)
  have p: "\<forall>old rgn pp s s'. cache s = cache st' \<and> PatchedFillCRgn old rgn pp s = Some s'
                      \<longrightarrow> cache s' = cache st'"
    using cache_stable(2) n by metis
  have q: "\<forall>old r s s'. cache s = cache st' \<and> PatchedEraseRect old r s = Some s'
                      \<longrightarrow> cache s' = cache st'"
    using cache_stable(3) n by metis
  show ?thesis using e f r p q by blast
qed

theorem EnsureScreenInfo_first_success_witness:
  "gScreenReady demo_cold = 0 \<and>
   deref (gdevices (host demo_cold)) (GetMainDevice (host demo_cold)) = Some \<lparr>gdPMap = 0x700\<rparr> \<and>
   deref (pixmaps (host demo_cold)) (gdPMap \<lparr>gdPMap = 0x700\<rparr>) = Some screen_map \<and>
   pixelSize screen_map = 32 \<and>
   (\<exists>st'. EnsureScreenInfo demo_cold = (True, st') \<and>
      gScreenBase st' = 0x10000 \<and>
      uint (gScreenRowBytes st') = 80 \<and>
      gScreenWidth st' = 20 \<and>
      gScreenHeight st' = 20 \<and>
      gScreenReady st' = 1)"
proof -
  have a: "gScreenReady demo_cold = 0" by (simp add: demo_cold_def)
  have b: "deref (gdevices (host demo_cold)) (GetMainDevice (host demo_cold))
             = Some \<lparr>gdPMap = 0x700\<rparr>"
    by (simp add: demo_cold_def demo_host_def deref_def)
  have c: "deref (pixmaps (host demo_cold)) (gdPMap \<lparr>gdPMap = 0x700\<rparr>) = Some screen_map"
    by (simp add: demo_cold_def demo_host_def deref_def)
  have d: "pixelSize screen_map = 32" by (simp add: screen_map_def)
  have e: "baseAddr screen_map = 0x10000" "uint (rowBytes screen_map) mod 2 ^ 14 = 80"
    "right (bounds screen_map) - left (bounds screen_map) = 20"
    "bottom (bounds screen_map) - top' (bounds screen_map) = 20"
    by (simp_all add: screen_map_def)
  obtain st' where s: "EnsureScreenInfo demo_cold = (True, st')"
    "gScreenBase st' = baseAddr screen_map"
    "uint (gScreenRowBytes st') = uint (rowBytes screen_map) mod 2 ^ 14"
    "gScreenWidth st' = right (bounds screen_map) - left (bounds screen_map)"
    "gScreenHeight st' = bottom (bounds screen_map) - top' (bounds screen_map)"
    "gScreenReady st' = 1"
    using EnsureScreenInfo_first_success [OF a b c d] by blast
  show ?thesis using a b c d e s by simp
qed

section \<open>When the repaint fires\<close>

lemma RectInAnyStruc_iff:
  "RectInAnyStruc tb r wins \<longleftrightarrow>
     (\<exists>win \<in> set (butlast wins).
        deref (rgns tb) (strucRgn win) \<noteq> None \<and> RectInRgn tb r (strucRgn win))"
  by (induction tb r wins rule: RectInAnyStruc.induct) auto

lemma FillCRgn_guard_iff:
  "fst (FillCRgn_guard rgn st) \<longleftrightarrow>
     (\<exists>R. deref (rgns (host st)) rgn = Some R \<and> claimed_guard 4 st (rgnBBox R))"
  by (auto simp add: FillCRgn_guard_def claimed_guard_def IsWMgrDraw_def
      IsRectInAnyWindowStruc_def RectInAnyStruc_iff EnsureScreenInfo_keeps Let_def
      case_prod_beta split: option.splits)

lemma EraseRect_guard_iff:
  "fst (EraseRect_guard rp st) \<longleftrightarrow> (\<exists>r. rp = Some r \<and> claimed_guard 2 st r)"
  by (auto simp add: EraseRect_guard_def claimed_guard_def IsWMgrDraw_def
      IsRectInAnyWindowStruc_def RectInAnyStruc_iff EnsureScreenInfo_keeps Let_def
      case_prod_beta split: option.splits)

lemma guard_snd:
  "snd (FillCRgn_guard rgn st) = snd (EnsureScreenInfo st)"
  "snd (EraseRect_guard rp st) = snd (EnsureScreenInfo st)"
  by (simp_all add: FillCRgn_guard_def EraseRect_guard_def case_prod_beta)

lemma claimed_guard_observe: "claimed_guard lo (observe e st) bbox = claimed_guard lo st bbox"
  by (simp add: claimed_guard_def EnsureScreenInfo_observe)

lemma fired_flag [simp]: "fired st (st'\<lparr>gInPatch := v\<rparr>) = fired st st'"
  by (simp add: fired_def)

lemma FillCRgn_fix_fires:
  "\<exists>st'. FillCRgn_fix rgn pp st = Some st' \<and>
     (fired st st' \<longleftrightarrow>
        (\<exists>R. deref (rgns (host st)) rgn = Some R \<and> claimed_guard 4 st (rgnBBox R)))"
proof (cases "fst (FillCRgn_guard rgn (observe GuardEval st))")
  case True
  let ?s2 = "observe (RenderRgn rgn pp) (snd (EnsureScreenInfo (observe GuardEval st)))"
  have h: "host ?s2 = host st" by (simp add: EnsureScreenInfo_keeps)
  have c: "\<exists>R. deref (rgns (host st)) rgn = Some R \<and> claimed_guard 4 st (rgnBBox R)"
    using True by (simp add: FillCRgn_guard_iff claimed_guard_observe)
  then have "deref (rgns (host ?s2)) rgn \<noteq> None" using h by auto
  then obtain st' where r: "RenderPatternInRgn rgn pp ?s2 = Some st'"
    using RenderPatternInRgn_total by blast
  have t: "filter is_render (trace st') = filter is_render (trace st) @ [RenderRgn rgn pp]"
    using RenderPatternInRgn_renders [OF r] by (simp add: EnsureScreenInfo_keeps)
  have f: "FillCRgn_fix rgn pp st = Some st'"
    using True r by (simp add: FillCRgn_fix_def guard_snd case_prod_beta)
  show ?thesis using f t c by (simp add: fired_def)
next
  case False
  then have c: "\<not> (\<exists>R. deref (rgns (host st)) rgn = Some R \<and> claimed_guard 4 st (rgnBBox R))"
    by (simp add: FillCRgn_guard_iff claimed_guard_observe)
  have "FillCRgn_fix rgn pp st = Some (snd (EnsureScreenInfo (observe GuardEval st)))"
    using False by (simp add: FillCRgn_fix_def guard_snd case_prod_beta)
  then show ?thesis using c by (simp add: fired_def EnsureScreenInfo_keeps)
qed

lemma EraseRect_fix_fires:
  "\<exists>st'. EraseRect_fix rp st = Some st' \<and>
     (fired st st' \<longleftrightarrow>
        (\<exists>r. rp = Some r \<and> claimed_guard 2 st r \<and> WMgrCPort (host st) \<noteq> 0 \<and>
             bkPixPat (cports (host st) (WMgrCPort (host st))) \<noteq> 0))"
proof (cases "fst (EraseRect_guard rp (observe GuardEval st)) \<and>
              EraseRect_pattern (host st) \<noteq> None")
  case True
  then obtain r bk where r: "rp = Some r" "claimed_guard 2 st r"
    and bk: "EraseRect_pattern (host st) = Some bk"
    by (auto simp add: EraseRect_guard_iff claimed_guard_observe)
  let ?s2 = "observe (RenderRect r bk) (snd (EnsureScreenInfo (observe GuardEval st)))"
  obtain st' where rr: "RenderPatternInRect r bk ?s2 = Some st'"
    using RenderPatternInRect_total by blast
  have t: "filter is_render (trace st') = filter is_render (trace st) @ [RenderRect r bk]"
    using RenderPatternInRect_renders [OF rr] by (simp add: EnsureScreenInfo_keeps)
  have f: "EraseRect_fix rp st = Some st'"
    using True r bk rr
    by (simp add: EraseRect_fix_def guard_snd EnsureScreenInfo_keeps case_prod_beta)
  have c: "WMgrCPort (host st) \<noteq> 0 \<and> bkPixPat (cports (host st) (WMgrCPort (host st))) \<noteq> 0"
    using bk by (auto simp add: EraseRect_pattern_def Let_def split: if_splits)
  show ?thesis using f t c r by (simp add: fired_def)
next
  case False
  then have c: "\<not> (\<exists>r. rp = Some r \<and> claimed_guard 2 st r \<and> WMgrCPort (host st) \<noteq> 0 \<and>
             bkPixPat (cports (host st) (WMgrCPort (host st))) \<noteq> 0)"
    by (auto simp add: EraseRect_guard_iff claimed_guard_observe EraseRect_pattern_def Let_def
        split: if_splits)
  have "EraseRect_fix rp st = Some (snd (EnsureScreenInfo (observe GuardEval st)))"
    using False
    by (auto simp add: EraseRect_fix_def guard_snd EnsureScreenInfo_keeps case_prod_beta
        split: option.splits)
  then show ?thesis using c by (simp add: fired_def EnsureScreenInfo_keeps)
qed

text \<open>
  Claim C4, amended. In a top-level intercepted call, once the original has returned
  (leaving \<open>st1\<close>, \<open>st2\<close>), the patch returns, and it has entered the renderer exactly
  when the area is there (the region handle and its master pointer are not nil; the
  rectangle pointer is not nil), the listed guard holds of its bounding box (cache
  ready, current port the Window Manager's, width and height from 4, for a rectangle
  2, to 250, top edge not above the menu bar's height, no structure region but that
  of the last window met) and, for a rectangle, the port at \<open>0x0D2C\<close> is not nil and
  has a background pattern.
\<close>

theorem repaint_iff_guard:
  assumes "gInPatch st = 0"
    and "run_old old (observe (OrigFillCRgn rgn pp) (st\<lparr>gInPatch := 1\<rparr>)) = Some st1"
    and "run_old old' (observe (OrigEraseRect rp) (st\<lparr>gInPatch := 1\<rparr>)) = Some st2"
  shows "(\<exists>st'. PatchedFillCRgn old rgn pp st = Some st' \<and>
            (fired st1 st' \<longleftrightarrow>
               (\<exists>R. deref (rgns (host st1)) rgn = Some R \<and> claimed_guard 4 st1 (rgnBBox R)))) \<and>
         (\<exists>st'. PatchedEraseRect old' rp st = Some st' \<and>
            (fired st2 st' \<longleftrightarrow>
               (\<exists>r. rp = Some r \<and> claimed_guard 2 st2 r \<and> WMgrCPort (host st2) \<noteq> 0 \<and>
                    bkPixPat (cports (host st2) (WMgrCPort (host st2))) \<noteq> 0)))"
proof
  obtain s where s: "FillCRgn_fix rgn pp st1 = Some s"
    "fired st1 s \<longleftrightarrow>
       (\<exists>R. deref (rgns (host st1)) rgn = Some R \<and> claimed_guard 4 st1 (rgnBBox R))"
    using FillCRgn_fix_fires [of rgn pp st1] by blast
  then show "\<exists>st'. PatchedFillCRgn old rgn pp st = Some st' \<and>
            (fired st1 st' \<longleftrightarrow>
               (\<exists>R. deref (rgns (host st1)) rgn = Some R \<and> claimed_guard 4 st1 (rgnBBox R)))"
    using assms(1,2) by simp
next
  obtain s where s: "EraseRect_fix rp st2 = Some s"
    "fired st2 s \<longleftrightarrow> (\<exists>r. rp = Some r \<and> claimed_guard 2 st2 r \<and> WMgrCPort (host st2) \<noteq> 0 \<and>
                    bkPixPat (cports (host st2) (WMgrCPort (host st2))) \<noteq> 0)"
    using EraseRect_fix_fires [of rp st2] by blast
  then show "\<exists>st'. PatchedEraseRect old' rp st = Some st' \<and>
            (fired st2 st' \<longleftrightarrow>
               (\<exists>r. rp = Some r \<and> claimed_guard 2 st2 r \<and> WMgrCPort (host st2) \<noteq> 0 \<and>
                    bkPixPat (cports (host st2) (WMgrCPort (host st2))) \<noteq> 0))"
    using assms(1,3) by simp
qed

theorem repaint_iff_guard_witness:
  "gInPatch demo = 0 \<and>
   run_old Return (observe (OrigFillCRgn 0x500 0x100) (demo\<lparr>gInPatch := 1\<rparr>))
     = Some (observe (OrigFillCRgn 0x500 0x100) (demo\<lparr>gInPatch := 1\<rparr>)) \<and>
   run_old Return (observe (OrigEraseRect (Some demo_bbox)) (demo\<lparr>gInPatch := 1\<rparr>))
     = Some (observe (OrigEraseRect (Some demo_bbox)) (demo\<lparr>gInPatch := 1\<rparr>)) \<and>
   (\<exists>st'. PatchedFillCRgn Return 0x500 0x100 demo = Some st' \<and>
      fired (observe (OrigFillCRgn 0x500 0x100) (demo\<lparr>gInPatch := 1\<rparr>)) st') \<and>
   (\<exists>st'. PatchedEraseRect Return (Some demo_bbox) demo = Some st' \<and>
      fired (observe (OrigEraseRect (Some demo_bbox)) (demo\<lparr>gInPatch := 1\<rparr>)) st')"
proof -
  let ?s1 = "observe (OrigFillCRgn 0x500 0x100) (demo\<lparr>gInPatch := 1\<rparr>)"
  let ?s2 = "observe (OrigEraseRect (Some demo_bbox)) (demo\<lparr>gInPatch := 1\<rparr>)"
  have a: "gInPatch demo = 0" by (simp add: demo_def)
  have b: "run_old Return ?s1 = Some ?s1" by simp
  have c: "run_old Return ?s2 = Some ?s2" by simp
  have g1: "\<exists>R. deref (rgns (host ?s1)) 0x500 = Some R \<and> claimed_guard 4 ?s1 (rgnBBox R)"
    by (simp add: claimed_guard_def demo_def demo_host_def demo_bbox_def EnsureScreenInfo_def
      deref_def observe_def)
  have g2: "\<exists>r. Some demo_bbox = Some r \<and> claimed_guard 2 ?s2 r \<and> WMgrCPort (host ?s2) \<noteq> 0 \<and>
                    bkPixPat (cports (host ?s2) (WMgrCPort (host ?s2))) \<noteq> 0"
    by (simp add: claimed_guard_def demo_def demo_host_def demo_bbox_def EnsureScreenInfo_def
      deref_def observe_def)
  show ?thesis
    using a b c g1 g2 repaint_iff_guard [OF a b c] by blast
qed

text \<open>
  The claim as the specification words it, the listed conditions alone being enough,
  fails for the rectangle form on a desktop port that has no background pattern: the
  listed guard holds of the rectangle, and the top-level call returns without having
  entered a renderer.
\<close>

theorem repaint_guard_counterexample:
  "claimed_guard 2 demo_nopat demo_bbox \<and> gInPatch demo_nopat = 0 \<and>
   map_option (\<lambda>s. filter is_render (trace s))
     (PatchedEraseRect Return (Some demo_bbox) demo_nopat) = Some []"
  by (simp add: claimed_guard_def demo_nopat_def demo_def demo_host_def demo_bbox_def
      EnsureScreenInfo_def deref_def observe_def EraseRect_fix_def EraseRect_guard_def
      EraseRect_pattern_def IsWMgrDraw_def IsRectInAnyWindowStruc_def)

section \<open>Recursion\<close>

text \<open>
  With the recursion flag set, a run of an original and a call of either patch return,
  add nothing of the corrective part to the trace, and leave the flag as it is,
  however deeply the original calls the patched primitives again.
\<close>

lemma nested_runs:
  "(gInPatch st \<noteq> 0 \<longrightarrow>
      (\<exists>st'. run_old old st = Some st' \<and>
         filter is_fix (trace st') = filter is_fix (trace st) \<and> gInPatch st' = gInPatch st))"
  "(gInPatch st2 \<noteq> 0 \<longrightarrow>
      (\<exists>st'. PatchedFillCRgn old2 rgn pp st2 = Some st' \<and>
         filter is_fix (trace st') = filter is_fix (trace st2) \<and> gInPatch st' = gInPatch st2))"
  "(gInPatch st3 \<noteq> 0 \<longrightarrow>
      (\<exists>st'. PatchedEraseRect old3 r st3 = Some st' \<and>
         filter is_fix (trace st') = filter is_fix (trace st3) \<and> gInPatch st' = gInPatch st3))"
proof (induction old st and old2 rgn pp st2 and old3 r st3
    rule: run_old_PatchedFillCRgn_PatchedEraseRect.induct)
  case (1 st)
  then show ?case by simp
next
  case (2 f k st)
  then show ?case by simp
next
  case (3 rgn pp inner k st)
  show ?case
  proof
    assume g: "gInPatch st \<noteq> 0"
    then obtain s1 where s1: "PatchedFillCRgn inner rgn pp st = Some s1"
      "filter is_fix (trace s1) = filter is_fix (trace st)" "gInPatch s1 = gInPatch st"
      using 3(1) by blast
    then obtain s2 where "run_old k s1 = Some s2"
      "filter is_fix (trace s2) = filter is_fix (trace s1)" "gInPatch s2 = gInPatch s1"
      using 3(2) g by auto
    then show "\<exists>st'. run_old (TrapFillCRgn rgn pp inner k) st = Some st' \<and>
         filter is_fix (trace st') = filter is_fix (trace st) \<and> gInPatch st' = gInPatch st"
      using s1 by simp
  qed
next
  case (4 r inner k st)
  show ?case
  proof
    assume g: "gInPatch st \<noteq> 0"
    then obtain s1 where s1: "PatchedEraseRect inner r st = Some s1"
      "filter is_fix (trace s1) = filter is_fix (trace st)" "gInPatch s1 = gInPatch st"
      using 4(1) by blast
    then obtain s2 where "run_old k s1 = Some s2"
      "filter is_fix (trace s2) = filter is_fix (trace s1)" "gInPatch s2 = gInPatch s1"
      using 4(2) g by auto
    then show "\<exists>st'. run_old (TrapEraseRect r inner k) st = Some st' \<and>
         filter is_fix (trace st') = filter is_fix (trace st) \<and> gInPatch st' = gInPatch st"
      using s1 by simp
  qed
next
  case (5 old rgn pp st)
  show ?case
  proof
    assume g: "gInPatch st \<noteq> 0"
    then show "\<exists>st'. PatchedFillCRgn old rgn pp st = Some st' \<and>
         filter is_fix (trace st') = filter is_fix (trace st) \<and> gInPatch st' = gInPatch st"
      using 5(1) by simp
  qed
next
  case (6 old r st)
  show ?case
  proof
    assume g: "gInPatch st \<noteq> 0"
    then show "\<exists>st'. PatchedEraseRect old r st = Some st' \<and>
         filter is_fix (trace st') = filter is_fix (trace st) \<and> gInPatch st' = gInPatch st"
      using 6(1) by simp
  qed
qed

text \<open>
  Claim C5. A call of either intercepted primitive made while the recursion flag is
  set is the run of the saved original and nothing else: it returns, and the trace has
  gained no guard evaluation, no entry into a renderer and no store, whatever the
  original does, further nested calls included. In particular the whole run of the
  original inside a top-level call, which sets the flag first, gains none.
\<close>

theorem nested_call_only_original:
  assumes "gInPatch st \<noteq> 0"
  shows "PatchedFillCRgn old rgn pp st = run_old old (observe (OrigFillCRgn rgn pp) st) \<and>
         PatchedEraseRect old r st = run_old old (observe (OrigEraseRect r) st) \<and>
         (\<exists>st'. PatchedFillCRgn old rgn pp st = Some st' \<and>
            filter is_fix (trace st') = filter is_fix (trace st) \<and>
            gInPatch st' = gInPatch st) \<and>
         (\<exists>st'. PatchedEraseRect old r st = Some st' \<and>
            filter is_fix (trace st') = filter is_fix (trace st) \<and>
            gInPatch st' = gInPatch st) \<and>
         (\<exists>st1. run_old old (observe (OrigFillCRgn rgn pp) (st0\<lparr>gInPatch := 1\<rparr>)) = Some st1 \<and>
            filter is_fix (trace st1) = filter is_fix (trace st0) \<and> gInPatch st1 = 1) \<and>
         (\<exists>st1. run_old old (observe (OrigEraseRect r) (st0\<lparr>gInPatch := 1\<rparr>)) = Some st1 \<and>
            filter is_fix (trace st1) = filter is_fix (trace st0) \<and> gInPatch st1 = 1)"
  using assms nested_runs(2) [of st old rgn pp] nested_runs(3) [of st old r]
    nested_runs(1) [of "observe (OrigFillCRgn rgn pp) (st0\<lparr>gInPatch := 1\<rparr>)" old]
    nested_runs(1) [of "observe (OrigEraseRect r) (st0\<lparr>gInPatch := 1\<rparr>)" old]
  by simp

theorem nested_call_only_original_witness:
  "gInPatch (demo\<lparr>gInPatch := 1\<rparr>) \<noteq> 0 \<and>
   (\<exists>st'. PatchedFillCRgn (TrapEraseRect (Some demo_bbox) Return Return) 0x500 0x100
             (demo\<lparr>gInPatch := 1\<rparr>) = Some st' \<and>
      filter is_fix (trace st') = filter is_fix (trace (demo\<lparr>gInPatch := 1\<rparr>)) \<and>
      gInPatch st' = gInPatch (demo\<lparr>gInPatch := 1\<rparr>)) \<and>
   (\<exists>st1. run_old (TrapEraseRect (Some demo_bbox) Return Return)
             (observe (OrigFillCRgn 0x500 0x100) (demo\<lparr>gInPatch := 1\<rparr>)) = Some st1 \<and>
      filter is_fix (trace st1) = filter is_fix (trace demo) \<and> gInPatch st1 = 1)"
proof -
  have a: "gInPatch (demo\<lparr>gInPatch := 1\<rparr>) \<noteq> 0" by simp
  show ?thesis
    using a nested_call_only_original [OF a, of "TrapEraseRect (Some demo_bbox) Return Return"
        "0x500" "0x100" "Some demo_bbox" demo]
    by blast
qed

section \<open>A failed query\<close>

text \<open>
  With the recursion flag set, a run of an original and a call of either patch leave
  the surface cache as it was: only the corrective part writes it, and a nested call
  never reaches that part.
\<close>

lemma nested_cache:
  "(gInPatch st \<noteq> 0 \<longrightarrow> (\<forall>st'. run_old old st = Some st' \<longrightarrow> cache st' = cache st))"
  "(gInPatch st2 \<noteq> 0 \<longrightarrow>
      (\<forall>st'. PatchedFillCRgn old2 rgn pp st2 = Some st' \<longrightarrow> cache st' = cache st2))"
  "(gInPatch st3 \<noteq> 0 \<longrightarrow>
      (\<forall>st'. PatchedEraseRect old3 r st3 = Some st' \<longrightarrow> cache st' = cache st3))"
proof (induction old st and old2 rgn pp st2 and old3 r st3
    rule: run_old_PatchedFillCRgn_PatchedEraseRect.induct)
  case (1 st)
  then show ?case by simp
next
  case (2 f k st)
  then show ?case by simp
next
  case (3 rgn pp inner k st)
  show ?case
  proof (intro impI allI)
    fix st' assume g: "gInPatch st \<noteq> 0"
      and r: "run_old (TrapFillCRgn rgn pp inner k) st = Some st'"
    then obtain s1 where s1: "PatchedFillCRgn inner rgn pp st = Some s1" "run_old k s1 = Some st'"
      by (auto split: option.splits)
    have c1: "cache s1 = cache st" using 3(1) g s1(1) by blast
    have "gInPatch s1 = gInPatch st" using nested_runs(2) [of st inner rgn pp] g s1(1) by auto
    then have "cache st' = cache s1" using 3(2) s1 g by auto
    then show "cache st' = cache st" using c1 by simp
  qed
next
  case (4 r inner k st)
  show ?case
  proof (intro impI allI)
    fix st' assume g: "gInPatch st \<noteq> 0"
      and r: "run_old (TrapEraseRect r inner k) st = Some st'"
    then obtain s1 where s1: "PatchedEraseRect inner r st = Some s1" "run_old k s1 = Some st'"
      by (auto split: option.splits)
    have c1: "cache s1 = cache st" using 4(1) g s1(1) by blast
    have "gInPatch s1 = gInPatch st" using nested_runs(3) [of st inner r] g s1(1) by auto
    then have "cache st' = cache s1" using 4(2) s1 g by auto
    then show "cache st' = cache st" using c1 by simp
  qed
next
  case (5 old rgn pp st)
  then show ?case by simp
next
  case (6 old r st)
  then show ?case by simp
qed

lemma EnsureScreenInfo_capable:
  "gScreenReady s = 0 \<Longrightarrow> fst (EnsureScreenInfo s) \<longleftrightarrow> capable (host s)"
  by (auto simp add: EnsureScreenInfo_def capable_def split: option.splits if_splits)

lemma EnsureScreenInfo_then_ready:
  "gScreenReady s = 0 \<Longrightarrow>
   gScreenReady (snd (EnsureScreenInfo s)) = (if capable (host s) then 1 else 0)"
  by (auto simp add: EnsureScreenInfo_def capable_def split: option.splits if_splits)

lemma EnsureScreenInfo_observe_snd:
  "cache (snd (EnsureScreenInfo (observe e st))) = cache (snd (EnsureScreenInfo st))"
  by (auto simp add: EnsureScreenInfo_def observe_def cache_def split: option.splits)

lemma FillCRgn_fix_cache:
  "FillCRgn_fix rgn pp st = Some st' \<Longrightarrow> cache st' = cache (snd (EnsureScreenInfo st))"
  by (auto simp add: FillCRgn_fix_def guard_snd case_prod_beta EnsureScreenInfo_observe_snd
      dest!: cache_Rgn split: if_splits)

lemma EraseRect_fix_cache:
  "EraseRect_fix rp st = Some st' \<Longrightarrow> cache st' = cache (snd (EnsureScreenInfo st))"
  by (auto simp add: EraseRect_fix_def guard_snd case_prod_beta EnsureScreenInfo_observe_snd
      dest!: cache_Rect split: if_splits option.splits)

lemma ready_of_cache: "cache a = cache b \<Longrightarrow> gScreenReady a = gScreenReady b"
  by (simp add: cache_def)

lemma later_FillCRgn:
  assumes "gInPatch s = 0" and "gScreenReady s = 0"
    and "run_old old (observe (OrigFillCRgn rgn pp) (s\<lparr>gInPatch := 1\<rparr>)) = Some s1"
  shows "gScreenReady s1 = 0 \<and> (fst (EnsureScreenInfo s1) \<longleftrightarrow> capable (host s1)) \<and>
         (\<exists>s'. PatchedFillCRgn old rgn pp s = Some s' \<and> gInPatch s' = 0 \<and>
            gScreenReady s' = (if capable (host s1) then 1 else 0) \<and>
            (fired s1 s' \<longleftrightarrow>
               (\<exists>R. deref (rgns (host s1)) rgn = Some R \<and> claimed_guard 4 s1 (rgnBBox R))))"
proof -
  have c: "cache s1 = cache s"
    using nested_cache(1) [of "observe (OrigFillCRgn rgn pp) (s\<lparr>gInPatch := 1\<rparr>)" old] assms(3)
    by simp
  then have r: "gScreenReady s1 = 0" using assms(2) ready_of_cache by metis
  obtain t where t: "FillCRgn_fix rgn pp s1 = Some t"
    "fired s1 t \<longleftrightarrow> (\<exists>R. deref (rgns (host s1)) rgn = Some R \<and> claimed_guard 4 s1 (rgnBBox R))"
    using FillCRgn_fix_fires [of rgn pp s1] by blast
  have g: "gScreenReady t = (if capable (host s1) then 1 else 0)"
    using ready_of_cache [OF FillCRgn_fix_cache [OF t(1)]] EnsureScreenInfo_then_ready [OF r]
    by simp
  have p: "PatchedFillCRgn old rgn pp s = Some (t\<lparr>gInPatch := 0\<rparr>)"
    using assms(1,3) t(1) by simp
  show ?thesis using r EnsureScreenInfo_capable [OF r] p g t(2) by simp
qed

lemma later_EraseRect:
  assumes "gInPatch s = 0" and "gScreenReady s = 0"
    and "run_old old (observe (OrigEraseRect rp) (s\<lparr>gInPatch := 1\<rparr>)) = Some s1"
  shows "gScreenReady s1 = 0 \<and> (fst (EnsureScreenInfo s1) \<longleftrightarrow> capable (host s1)) \<and>
         (\<exists>s'. PatchedEraseRect old rp s = Some s' \<and> gInPatch s' = 0 \<and>
            gScreenReady s' = (if capable (host s1) then 1 else 0) \<and>
            (fired s1 s' \<longleftrightarrow>
               (\<exists>r. rp = Some r \<and> claimed_guard 2 s1 r \<and> WMgrCPort (host s1) \<noteq> 0 \<and>
                    bkPixPat (cports (host s1) (WMgrCPort (host s1))) \<noteq> 0)))"
proof -
  have c: "cache s1 = cache s"
    using nested_cache(1) [of "observe (OrigEraseRect rp) (s\<lparr>gInPatch := 1\<rparr>)" old] assms(3)
    by simp
  then have r: "gScreenReady s1 = 0" using assms(2) ready_of_cache by metis
  obtain t where t: "EraseRect_fix rp s1 = Some t"
    "fired s1 t \<longleftrightarrow> (\<exists>r. rp = Some r \<and> claimed_guard 2 s1 r \<and> WMgrCPort (host s1) \<noteq> 0 \<and>
                    bkPixPat (cports (host s1) (WMgrCPort (host s1))) \<noteq> 0)"
    using EraseRect_fix_fires [of rp s1] by blast
  have g: "gScreenReady t = (if capable (host s1) then 1 else 0)"
    using ready_of_cache [OF EraseRect_fix_cache [OF t(1)]] EnsureScreenInfo_then_ready [OF r]
    by simp
  have p: "PatchedEraseRect old rp s = Some (t\<lparr>gInPatch := 0\<rparr>)"
    using assms(1,3) t(1) by simp
  show ?thesis using r EnsureScreenInfo_capable [OF r] p g t(2) by simp
qed

lemma failed_fix:
  assumes "\<not> fst (EnsureScreenInfo st)"
  shows "FillCRgn_fix rgn pp st = Some (observe GuardEval st)"
    "EraseRect_fix rp st = Some (observe GuardEval st)"
proof -
  have o: "EnsureScreenInfo (observe GuardEval st) = (False, observe GuardEval st)"
    using assms EnsureScreenInfo_fails [of "observe GuardEval st"]
    by (simp add: EnsureScreenInfo_observe)
  show "FillCRgn_fix rgn pp st = Some (observe GuardEval st)"
    by (simp add: FillCRgn_fix_def FillCRgn_guard_def o)
  show "EraseRect_fix rp st = Some (observe GuardEval st)"
    by (simp add: EraseRect_fix_def EraseRect_guard_def o)
qed

text \<open>
  Claim C7, amended. When the capability query fails (no main device, no pixel map, or
  a depth other than 32) nothing is cached and the ready flag stays clear: a top-level
  call of either patched primitive whose query fails returns with the recursion flag
  clear and the cache as it was before the call, still not ready, having evaluated the
  guard and entered no renderer. The failure is not remembered. Every later top-level
  call of either primitive that finds the flag clear and the cache not ready queries
  the device again, returns with the flag clear, leaves the cache ready exactly when
  the device is then there with a pixel map of 32 bits a pixel, and repaints exactly
  when the guard, that query included, holds.
\<close>

theorem failed_query_is_retried:
  assumes "gInPatch st0 = 0"
    and "run_old old (observe (OrigFillCRgn rgn pp) (st0\<lparr>gInPatch := 1\<rparr>)) = Some st"
    and "run_old old' (observe (OrigEraseRect rp) (st0\<lparr>gInPatch := 1\<rparr>)) = Some st2"
    and "\<not> fst (EnsureScreenInfo st)"
    and "\<not> fst (EnsureScreenInfo st2)"
  shows "EnsureScreenInfo st = (False, st) \<and> gScreenReady st = 0 \<and>
         FillCRgn_fix rgn pp st = Some (observe GuardEval st) \<and>
         EraseRect_fix rp st2 = Some (observe GuardEval st2) \<and>
         (fst (EnsureScreenInfo (st\<lparr>host := tb\<rparr>)) \<longleftrightarrow>
            (\<exists>dev pm. deref (gdevices tb) (GetMainDevice tb) = Some dev \<and>
               deref (pixmaps tb) (gdPMap dev) = Some pm \<and> pixelSize pm = 32)) \<and>
         PatchedFillCRgn old rgn pp st0 = Some ((observe GuardEval st)\<lparr>gInPatch := 0\<rparr>) \<and>
         PatchedEraseRect old' rp st0 = Some ((observe GuardEval st2)\<lparr>gInPatch := 0\<rparr>) \<and>
         gInPatch ((observe GuardEval st)\<lparr>gInPatch := 0\<rparr>) = 0 \<and>
         gInPatch ((observe GuardEval st2)\<lparr>gInPatch := 0\<rparr>) = 0 \<and>
         gScreenReady ((observe GuardEval st)\<lparr>gInPatch := 0\<rparr>) = 0 \<and>
         gScreenReady ((observe GuardEval st2)\<lparr>gInPatch := 0\<rparr>) = 0 \<and>
         cache ((observe GuardEval st)\<lparr>gInPatch := 0\<rparr>) = cache st0 \<and>
         cache ((observe GuardEval st2)\<lparr>gInPatch := 0\<rparr>) = cache st0 \<and>
         filter is_fix (trace ((observe GuardEval st)\<lparr>gInPatch := 0\<rparr>))
           = filter is_fix (trace st0) @ [GuardEval] \<and>
         filter is_fix (trace ((observe GuardEval st2)\<lparr>gInPatch := 0\<rparr>))
           = filter is_fix (trace st0) @ [GuardEval] \<and>
         (\<forall>s old2 rgn2 pp2 s1.
            gInPatch s = 0 \<and> gScreenReady s = 0 \<and>
            run_old old2 (observe (OrigFillCRgn rgn2 pp2) (s\<lparr>gInPatch := 1\<rparr>)) = Some s1
            \<longrightarrow> gScreenReady s1 = 0 \<and> (fst (EnsureScreenInfo s1) \<longleftrightarrow> capable (host s1)) \<and>
                (\<exists>s'. PatchedFillCRgn old2 rgn2 pp2 s = Some s' \<and> gInPatch s' = 0 \<and>
                   gScreenReady s' = (if capable (host s1) then 1 else 0) \<and>
                   (fired s1 s' \<longleftrightarrow>
                      (\<exists>R. deref (rgns (host s1)) rgn2 = Some R \<and>
                           claimed_guard 4 s1 (rgnBBox R))))) \<and>
         (\<forall>s old2 rp2 s1.
            gInPatch s = 0 \<and> gScreenReady s = 0 \<and>
            run_old old2 (observe (OrigEraseRect rp2) (s\<lparr>gInPatch := 1\<rparr>)) = Some s1
            \<longrightarrow> gScreenReady s1 = 0 \<and> (fst (EnsureScreenInfo s1) \<longleftrightarrow> capable (host s1)) \<and>
                (\<exists>s'. PatchedEraseRect old2 rp2 s = Some s' \<and> gInPatch s' = 0 \<and>
                   gScreenReady s' = (if capable (host s1) then 1 else 0) \<and>
                   (fired s1 s' \<longleftrightarrow>
                      (\<exists>r. rp2 = Some r \<and> claimed_guard 2 s1 r \<and> WMgrCPort (host s1) \<noteq> 0 \<and>
                           bkPixPat (cports (host s1) (WMgrCPort (host s1))) \<noteq> 0))))"
proof -
  have a: "EnsureScreenInfo st = (False, st)" "gScreenReady st = 0"
    using EnsureScreenInfo_fails [OF assms(4)] by simp_all
  have a2: "gScreenReady st2 = 0"
    using EnsureScreenInfo_fails [OF assms(5)] by simp
  have f: "FillCRgn_fix rgn pp st = Some (observe GuardEval st)"
    by (rule failed_fix(1) [OF assms(4)])
  have e: "EraseRect_fix rp st2 = Some (observe GuardEval st2)"
    by (rule failed_fix(2) [OF assms(5)])
  have q: "fst (EnsureScreenInfo (st\<lparr>host := tb\<rparr>)) \<longleftrightarrow>
            (\<exists>dev pm. deref (gdevices tb) (GetMainDevice tb) = Some dev \<and>
               deref (pixmaps tb) (gdPMap dev) = Some pm \<and> pixelSize pm = 32)"
    by (rule EnsureScreenInfo_cold [OF a(2)])
  have p1: "PatchedFillCRgn old rgn pp st0 = Some ((observe GuardEval st)\<lparr>gInPatch := 0\<rparr>)"
    using assms(1,2) f by simp
  have p2: "PatchedEraseRect old' rp st0 = Some ((observe GuardEval st2)\<lparr>gInPatch := 0\<rparr>)"
    using assms(1,3) e by simp
  have c1: "cache st = cache st0"
    using nested_cache(1) [of "observe (OrigFillCRgn rgn pp) (st0\<lparr>gInPatch := 1\<rparr>)" old]
      assms(2) by simp
  have c2: "cache st2 = cache st0"
    using nested_cache(1) [of "observe (OrigEraseRect rp) (st0\<lparr>gInPatch := 1\<rparr>)" old']
      assms(3) by simp
  have t1: "filter is_fix (trace st) = filter is_fix (trace st0)"
    using nested_runs(1) [of "observe (OrigFillCRgn rgn pp) (st0\<lparr>gInPatch := 1\<rparr>)" old]
      assms(2) by simp
  have t2: "filter is_fix (trace st2) = filter is_fix (trace st0)"
    using nested_runs(1) [of "observe (OrigEraseRect rp) (st0\<lparr>gInPatch := 1\<rparr>)" old']
      assms(3) by simp
  have l1: "\<forall>s old2 rgn2 pp2 s1.
            gInPatch s = 0 \<and> gScreenReady s = 0 \<and>
            run_old old2 (observe (OrigFillCRgn rgn2 pp2) (s\<lparr>gInPatch := 1\<rparr>)) = Some s1
            \<longrightarrow> gScreenReady s1 = 0 \<and> (fst (EnsureScreenInfo s1) \<longleftrightarrow> capable (host s1)) \<and>
                (\<exists>s'. PatchedFillCRgn old2 rgn2 pp2 s = Some s' \<and> gInPatch s' = 0 \<and>
                   gScreenReady s' = (if capable (host s1) then 1 else 0) \<and>
                   (fired s1 s' \<longleftrightarrow>
                      (\<exists>R. deref (rgns (host s1)) rgn2 = Some R \<and>
                           claimed_guard 4 s1 (rgnBBox R))))"
    by (intro allI impI, elim conjE, rule later_FillCRgn)
  have l2: "\<forall>s old2 rp2 s1.
            gInPatch s = 0 \<and> gScreenReady s = 0 \<and>
            run_old old2 (observe (OrigEraseRect rp2) (s\<lparr>gInPatch := 1\<rparr>)) = Some s1
            \<longrightarrow> gScreenReady s1 = 0 \<and> (fst (EnsureScreenInfo s1) \<longleftrightarrow> capable (host s1)) \<and>
                (\<exists>s'. PatchedEraseRect old2 rp2 s = Some s' \<and> gInPatch s' = 0 \<and>
                   gScreenReady s' = (if capable (host s1) then 1 else 0) \<and>
                   (fired s1 s' \<longleftrightarrow>
                      (\<exists>r. rp2 = Some r \<and> claimed_guard 2 s1 r \<and> WMgrCPort (host s1) \<noteq> 0 \<and>
                           bkPixPat (cports (host s1) (WMgrCPort (host s1))) \<noteq> 0)))"
    by (intro allI impI, elim conjE, rule later_EraseRect)
  have g: "gScreenReady ((observe GuardEval st)\<lparr>gInPatch := 0\<rparr>) = 0"
    "gScreenReady ((observe GuardEval st2)\<lparr>gInPatch := 0\<rparr>) = 0"
    using a(2) a2 by simp_all
  have k: "cache ((observe GuardEval st)\<lparr>gInPatch := 0\<rparr>) = cache st0"
    "cache ((observe GuardEval st2)\<lparr>gInPatch := 0\<rparr>) = cache st0"
    using c1 c2 by simp_all
  have tr: "filter is_fix (trace ((observe GuardEval st)\<lparr>gInPatch := 0\<rparr>))
           = filter is_fix (trace st0) @ [GuardEval]"
    "filter is_fix (trace ((observe GuardEval st2)\<lparr>gInPatch := 0\<rparr>))
           = filter is_fix (trace st0) @ [GuardEval]"
    using t1 t2 by simp_all
  have z: "gInPatch ((observe GuardEval st)\<lparr>gInPatch := 0\<rparr>) = 0"
    "gInPatch ((observe GuardEval st2)\<lparr>gInPatch := 0\<rparr>) = 0"
    by simp_all
  show ?thesis
    by (intro conjI a f e q p1 p2 z g k tr l1 l2)
qed


theorem failed_query_is_retried_witness:
  "gInPatch cold8 = 0 \<and>
   run_old Return (observe (OrigFillCRgn 0x500 0x100) (cold8\<lparr>gInPatch := 1\<rparr>))
     = Some (observe (OrigFillCRgn 0x500 0x100) (cold8\<lparr>gInPatch := 1\<rparr>)) \<and>
   run_old Return (observe (OrigEraseRect (Some demo_bbox)) (cold8\<lparr>gInPatch := 1\<rparr>))
     = Some (observe (OrigEraseRect (Some demo_bbox)) (cold8\<lparr>gInPatch := 1\<rparr>)) \<and>
   \<not> fst (EnsureScreenInfo (observe (OrigFillCRgn 0x500 0x100) (cold8\<lparr>gInPatch := 1\<rparr>))) \<and>
   \<not> fst (EnsureScreenInfo
      (observe (OrigEraseRect (Some demo_bbox)) (cold8\<lparr>gInPatch := 1\<rparr>))) \<and>
   PatchedFillCRgn Return 0x500 0x100 cold8
     = Some (cold8\<lparr>trace := [OrigFillCRgn 0x500 0x100, GuardEval]\<rparr>) \<and>
   PatchedEraseRect Return (Some demo_bbox) cold8
     = Some (cold8\<lparr>trace := [OrigEraseRect (Some demo_bbox), GuardEval]\<rparr>) \<and>
   gInPatch (cold8\<lparr>trace := [OrigFillCRgn 0x500 0x100, GuardEval]\<rparr>) = 0 \<and>
   gScreenReady (cold8\<lparr>trace := [OrigFillCRgn 0x500 0x100, GuardEval]\<rparr>) = 0 \<and>
   capable demo_host \<and>
   (\<exists>s'. PatchedFillCRgn Return 0x500 0x100
            (cold8\<lparr>trace := [OrigFillCRgn 0x500 0x100, GuardEval], host := demo_host\<rparr>)
            = Some s' \<and>
      gInPatch s' = 0 \<and> gScreenReady s' = 1 \<and>
      fired (observe (OrigFillCRgn 0x500 0x100)
               (cold8\<lparr>trace := [OrigFillCRgn 0x500 0x100, GuardEval], host := demo_host,
                  gInPatch := 1\<rparr>)) s') \<and>
   (\<exists>s'. PatchedEraseRect Return (Some demo_bbox)
            (cold8\<lparr>trace := [OrigEraseRect (Some demo_bbox), GuardEval], host := demo_host\<rparr>)
            = Some s' \<and>
      gInPatch s' = 0 \<and> gScreenReady s' = 1 \<and>
      fired (observe (OrigEraseRect (Some demo_bbox))
               (cold8\<lparr>trace := [OrigEraseRect (Some demo_bbox), GuardEval], host := demo_host,
                  gInPatch := 1\<rparr>)) s')"
proof -
  let ?s1 = "observe (OrigFillCRgn 0x500 0x100) (cold8\<lparr>gInPatch := 1\<rparr>)"
  let ?s2 = "observe (OrigEraseRect (Some demo_bbox)) (cold8\<lparr>gInPatch := 1\<rparr>)"
  let ?a = "cold8\<lparr>trace := [OrigFillCRgn 0x500 0x100, GuardEval], host := demo_host\<rparr>"
  let ?b = "cold8\<lparr>trace := [OrigEraseRect (Some demo_bbox), GuardEval], host := demo_host\<rparr>"
  let ?a1 = "observe (OrigFillCRgn 0x500 0x100) (?a\<lparr>gInPatch := 1\<rparr>)"
  let ?b1 = "observe (OrigEraseRect (Some demo_bbox)) (?b\<lparr>gInPatch := 1\<rparr>)"
  have h1: "gInPatch cold8 = 0" by (simp add: cold8_def demo_cold_def)
  have h2: "run_old Return ?s1 = Some ?s1" by simp
  have h3: "run_old Return ?s2 = Some ?s2" by simp
  have h4: "\<not> fst (EnsureScreenInfo ?s1)"
    by (simp add: EnsureScreenInfo_def cold8_def demo_cold_def demo_host8_def demo_host_def
        deref_def screen_map_def observe_def)
  have h5: "\<not> fst (EnsureScreenInfo ?s2)"
    by (simp add: EnsureScreenInfo_def cold8_def demo_cold_def demo_host8_def demo_host_def
        deref_def screen_map_def observe_def)
  note T = failed_query_is_retried [OF h1 h2 h3 h4 h5, of demo_host]
  have e1: "(observe GuardEval ?s1)\<lparr>gInPatch := 0\<rparr>
              = cold8\<lparr>trace := [OrigFillCRgn 0x500 0x100, GuardEval]\<rparr>"
    by (simp add: observe_def cold8_def demo_cold_def)
  have e2: "(observe GuardEval ?s2)\<lparr>gInPatch := 0\<rparr>
              = cold8\<lparr>trace := [OrigEraseRect (Some demo_bbox), GuardEval]\<rparr>"
    by (simp add: observe_def cold8_def demo_cold_def)
  have "PatchedFillCRgn Return 0x500 0x100 cold8
          = Some ((observe GuardEval ?s1)\<lparr>gInPatch := 0\<rparr>)"
    using T by (elim conjE)
  then have p1: "PatchedFillCRgn Return 0x500 0x100 cold8
     = Some (cold8\<lparr>trace := [OrigFillCRgn 0x500 0x100, GuardEval]\<rparr>)"
    using e1 by simp
  have "PatchedEraseRect Return (Some demo_bbox) cold8
          = Some ((observe GuardEval ?s2)\<lparr>gInPatch := 0\<rparr>)"
    using T by (elim conjE)
  then have p2: "PatchedEraseRect Return (Some demo_bbox) cold8
     = Some (cold8\<lparr>trace := [OrigEraseRect (Some demo_bbox), GuardEval]\<rparr>)"
    using e2 by simp
  have z: "gInPatch (cold8\<lparr>trace := [OrigFillCRgn 0x500 0x100, GuardEval]\<rparr>) = 0"
    "gScreenReady (cold8\<lparr>trace := [OrigFillCRgn 0x500 0x100, GuardEval]\<rparr>) = 0"
    by (simp_all add: cold8_def demo_cold_def)
  have c: "capable demo_host"
    by (simp add: capable_def demo_host_def deref_def screen_map_def)
  have ha: "gInPatch ?a = 0 \<and> gScreenReady ?a = 0 \<and> run_old Return ?a1 = Some ?a1"
    by (simp add: cold8_def demo_cold_def)
  have hb: "gInPatch ?b = 0 \<and> gScreenReady ?b = 0 \<and> run_old Return ?b1 = Some ?b1"
    by (simp add: cold8_def demo_cold_def)
  have l1: "\<forall>s old2 rgn2 pp2 s1.
            gInPatch s = 0 \<and> gScreenReady s = 0 \<and>
            run_old old2 (observe (OrigFillCRgn rgn2 pp2) (s\<lparr>gInPatch := 1\<rparr>)) = Some s1
            \<longrightarrow> gScreenReady s1 = 0 \<and> (fst (EnsureScreenInfo s1) \<longleftrightarrow> capable (host s1)) \<and>
                (\<exists>s'. PatchedFillCRgn old2 rgn2 pp2 s = Some s' \<and> gInPatch s' = 0 \<and>
                   gScreenReady s' = (if capable (host s1) then 1 else 0) \<and>
                   (fired s1 s' \<longleftrightarrow>
                      (\<exists>R. deref (rgns (host s1)) rgn2 = Some R \<and>
                           claimed_guard 4 s1 (rgnBBox R))))"
    using T by (elim conjE)
  have l2: "\<forall>s old2 rp2 s1.
            gInPatch s = 0 \<and> gScreenReady s = 0 \<and>
            run_old old2 (observe (OrigEraseRect rp2) (s\<lparr>gInPatch := 1\<rparr>)) = Some s1
            \<longrightarrow> gScreenReady s1 = 0 \<and> (fst (EnsureScreenInfo s1) \<longleftrightarrow> capable (host s1)) \<and>
                (\<exists>s'. PatchedEraseRect old2 rp2 s = Some s' \<and> gInPatch s' = 0 \<and>
                   gScreenReady s' = (if capable (host s1) then 1 else 0) \<and>
                   (fired s1 s' \<longleftrightarrow>
                      (\<exists>r. rp2 = Some r \<and> claimed_guard 2 s1 r \<and> WMgrCPort (host s1) \<noteq> 0 \<and>
                           bkPixPat (cports (host s1) (WMgrCPort (host s1))) \<noteq> 0)))"
    using T by (elim conjE)
  have ca: "capable (host ?a1)" using c by simp
  have cb: "capable (host ?b1)" using c by simp
  have g1: "\<exists>R. deref (rgns (host ?a1)) 0x500 = Some R \<and> claimed_guard 4 ?a1 (rgnBBox R)"
    by (simp add: claimed_guard_def cold8_def demo_cold_def demo_host_def demo_bbox_def
        EnsureScreenInfo_def deref_def observe_def screen_map_def)
  have g2: "\<exists>r. Some demo_bbox = Some r \<and> claimed_guard 2 ?b1 r \<and> WMgrCPort (host ?b1) \<noteq> 0 \<and>
                    bkPixPat (cports (host ?b1) (WMgrCPort (host ?b1))) \<noteq> 0"
    by (simp add: claimed_guard_def cold8_def demo_cold_def demo_host_def demo_bbox_def
        EnsureScreenInfo_def deref_def observe_def screen_map_def)
  have r1: "\<exists>s'. PatchedFillCRgn Return 0x500 0x100 ?a = Some s' \<and>
      gInPatch s' = 0 \<and> gScreenReady s' = 1 \<and> fired ?a1 s'"
    using l1 [rule_format, OF ha] ca g1 by auto
  have r2: "\<exists>s'. PatchedEraseRect Return (Some demo_bbox) ?b = Some s' \<and>
      gInPatch s' = 0 \<and> gScreenReady s' = 1 \<and> fired ?b1 s'"
    using l2 [rule_format, OF hb] cb g2 by auto
  show ?thesis
    by (intro conjI h1 h2 h3 h4 h5 p1 p2 z c r1 r2)
qed

text \<open>
  The claim as the specification words it, a fix disabled for good, fails: on a main
  device of 8 bits a pixel a first call of the patched \<open>FillCRgn\<close> (whose original
  just returns) evaluates the guard and repaints nothing; the device is then put to 32
  bits a pixel, and the same call on the machine the first one left repaints.
\<close>

theorem failed_query_counterexample:
  "\<not> fst (EnsureScreenInfo cold8) \<and>
   PatchedFillCRgn Return 0x500 0x100 cold8
     = Some (cold8\<lparr>trace := [OrigFillCRgn 0x500 0x100, GuardEval]\<rparr>) \<and>
   map_option (\<lambda>s. filter is_render (trace s))
     (PatchedFillCRgn Return 0x500 0x100
        (cold8\<lparr>trace := [OrigFillCRgn 0x500 0x100, GuardEval], host := demo_host\<rparr>))
     = Some [RenderRgn 0x500 0x100]"
proof (intro conjI)
  show "\<not> fst (EnsureScreenInfo cold8)"
    by (simp add: EnsureScreenInfo_def cold8_def demo_cold_def demo_host8_def demo_host_def
        deref_def screen_map_def)
  show "PatchedFillCRgn Return 0x500 0x100 cold8
     = Some (cold8\<lparr>trace := [OrigFillCRgn 0x500 0x100, GuardEval]\<rparr>)"
    by (simp add: EnsureScreenInfo_def cold8_def demo_cold_def demo_host8_def demo_host_def
        deref_def screen_map_def FillCRgn_fix_def FillCRgn_guard_def observe_def)
  show "map_option (\<lambda>s. filter is_render (trace s))
     (PatchedFillCRgn Return 0x500 0x100
        (cold8\<lparr>trace := [OrigFillCRgn 0x500 0x100, GuardEval], host := demo_host\<rparr>))
     = Some [RenderRgn 0x500 0x100]"
    by (simp add: EnsureScreenInfo_def cold8_def demo_cold_def demo_host_def
        deref_def screen_map_def FillCRgn_fix_def FillCRgn_guard_def observe_def
        IsWMgrDraw_def IsRectInAnyWindowStruc_def demo_bbox_def
        RenderPatternInRgn_def Let_def tile_map_def RgnPixels_eq store_pixels_def
        HGetState_def HLock_def HSetState_def)
qed

end
